theory Spec2Isabelle
  imports Complex_Main "HOL-Library.Word"
begin

section \<open>Values of the JavaScript runtime\<close>

text \<open>
  The coin model of the wallet is one TypeScript class, \<open>Coin\<close>. Its fields are declared
  with static types, but the class is filled by \<open>Object.assign\<close> from whatever
  \<open>JSON.parse\<close> returned, so at run time a field holds any JavaScript value or none.
  The embedding therefore keeps the fields dynamically typed.

  \<^item> A string is a list of UTF-16 code units.
  \<^item> A number is an IEEE 754 double: a finite value, given as the rational it is, an
    infinity or \<open>NaN\<close>. The two zeros are not told apart; no operation below does.
  \<^item> An object is the list of its own properties, without duplicate keys, in the order in
    which the runtime enumerates them. A value of a JSON text has no other properties
    and no methods, so the prototypes of these values are left out.
  \<^item> A \<open>Buffer\<close> is a list of bytes.
\<close>

type_synonym code_unit = "16 word"
type_synonym jsstring = "code_unit list"
type_synonym byte = "8 word"
type_synonym buffer = "byte list"

subsection \<open>Numbers\<close>

datatype number = Finite rat | PosInfinity | NegInfinity | NaN

text \<open>The number of binary digits of a positive integer.\<close>

function bit_length :: "int \<Rightarrow> int" where
  "bit_length n = (if n \<le> 0 then 0 else 1 + bit_length (n div 2))"
  by pat_completeness auto
termination
  by (relation "measure nat") auto

declare bit_length.simps [simp del]

text \<open>For a positive \<open>x\<close>, the exponent \<open>e\<close> with \<open>2^e \<le> x < 2^(e+1)\<close>: the difference of
  the digit counts of numerator and denominator, or one less.\<close>

definition floor_log2 :: "rat \<Rightarrow> int" where
  "floor_log2 x =
     (case quotient_of x of
        (a, b) \<Rightarrow>
          let k = bit_length a - bit_length b
          in if 2 powi k \<le> x then k else k - 1)"

text \<open>Rounding to the nearest integer, a tie going to the even one.\<close>

definition round_half_even :: "rat \<Rightarrow> int" where
  "round_half_even x =
     (let f = \<lfloor>x\<rfloor>; d = x - of_int f
      in if d < 1 / 2 then f
         else if 1 / 2 < d then f + 1
         else if even f then f else f + 1)"

text \<open>
  The Number value for a real \<open>x\<close>, as ECMAScript calls it: the double nearest to \<open>x\<close>, a
  tie going to the even significand. A double has 53 significant bits, and its last bit
  is worth at least \<open>2^-1074\<close>; what rounds to \<open>2^1024\<close> or beyond is an infinity. This is
  the rounding of a number literal and of every arithmetic operation.
\<close>

definition Number_value :: "rat \<Rightarrow> number" where
  "Number_value x =
     (if x = 0 then Finite 0
      else
        let e = floor_log2 \<bar>x\<bar>;
            q = max (e - 52) (- 1074);
            y = of_int (round_half_even (\<bar>x\<bar> / 2 powi q)) * 2 powi q
        in if 2 ^ 1024 \<le> y then (if 0 < x then PosInfinity else NegInfinity)
           else Finite (if 0 < x then y else - y))"

text \<open>The operator \<open>*\<close> on numbers: the exact product, rounded.\<close>

fun number_times :: "number \<Rightarrow> number \<Rightarrow> number" where
  "number_times NaN y = NaN"
| "number_times x NaN = NaN"
| "number_times (Finite a) (Finite b) = Number_value (a * b)"
| "number_times (Finite a) PosInfinity =
     (if a = 0 then NaN else if 0 < a then PosInfinity else NegInfinity)"
| "number_times (Finite a) NegInfinity =
     (if a = 0 then NaN else if 0 < a then NegInfinity else PosInfinity)"
| "number_times PosInfinity (Finite b) =
     (if b = 0 then NaN else if 0 < b then PosInfinity else NegInfinity)"
| "number_times NegInfinity (Finite b) =
     (if b = 0 then NaN else if 0 < b then NegInfinity else PosInfinity)"
| "number_times PosInfinity PosInfinity = PosInfinity"
| "number_times PosInfinity NegInfinity = NegInfinity"
| "number_times NegInfinity PosInfinity = NegInfinity"
| "number_times NegInfinity NegInfinity = PosInfinity"

subsection \<open>Values\<close>

datatype jsval =
    Undefined
  | Null
  | Bool bool
  | Num number
  | Str jsstring
  | Arr "jsval list"
  | Obj "(jsstring \<times> jsval) list"

text \<open>A string literal of the source, as code units.\<close>

definition js :: "string \<Rightarrow> jsstring" where
  "js s = map (\<lambda>c. of_nat (of_char c)) s"

text \<open>What the source can throw: the \<open>SyntaxError\<close> of \<open>JSON.parse\<close>, the
  \<open>TypeError\<close> of the runtime, and an \<open>Error\<close> with a message, which is what the
  libraries throw.\<close>

datatype error = SyntaxError | TypeError | Error string

section \<open>JSON text\<close>

text \<open>
  \<open>JSON.parse\<close> and \<open>JSON.stringify\<close> are built into the runtime. They are modelled
  after the ECMAScript grammar: a lexer for the tokens of JSON text, a parser for the
  values, and the serializer.
\<close>

subsection \<open>Characters\<close>

definition is_ws :: "code_unit \<Rightarrow> bool" where
  "is_ws c \<longleftrightarrow> c = 0x09 \<or> c = 0x0A \<or> c = 0x0D \<or> c = 0x20"

definition is_digit :: "code_unit \<Rightarrow> bool" where
  "is_digit c \<longleftrightarrow> 0x30 \<le> c \<and> c \<le> 0x39"

definition digit_val :: "code_unit \<Rightarrow> nat" where
  "digit_val c = unat c - 48"

definition digit_char :: "nat \<Rightarrow> code_unit" where
  "digit_char d = of_nat (48 + d)"

definition digits_val :: "jsstring \<Rightarrow> nat" where
  "digits_val ds = foldl (\<lambda>a c. 10 * a + digit_val c) 0 ds"

definition hex_val :: "code_unit \<Rightarrow> nat option" where
  "hex_val c =
     (if is_digit c then Some (unat c - 48)
      else if 0x61 \<le> c \<and> c \<le> 0x66 then Some (unat c - 87)
      else if 0x41 \<le> c \<and> c \<le> 0x46 then Some (unat c - 55)
      else None)"

definition hex_char :: "nat \<Rightarrow> code_unit" where
  "hex_char d = (if d < 10 then of_nat (48 + d) else of_nat (87 + d))"

definition is_high_surrogate :: "code_unit \<Rightarrow> bool" where
  "is_high_surrogate c \<longleftrightarrow> 0xD800 \<le> c \<and> c \<le> 0xDBFF"

definition is_low_surrogate :: "code_unit \<Rightarrow> bool" where
  "is_low_surrogate c \<longleftrightarrow> 0xDC00 \<le> c \<and> c \<le> 0xDFFF"

subsection \<open>Strings\<close>

text \<open>The escape after a backslash: the code unit it denotes and the number of characters
  it takes. \<open>\uXXXX\<close> takes four hexadecimal digits of either case.\<close>

definition unescape :: "code_unit \<Rightarrow> code_unit option" where
  "unescape e =
     (if e = 0x22 then Some 0x22
      else if e = 0x5C then Some 0x5C
      else if e = 0x2F then Some 0x2F
      else if e = 0x62 then Some 0x08
      else if e = 0x66 then Some 0x0C
      else if e = 0x6E then Some 0x0A
      else if e = 0x72 then Some 0x0D
      else if e = 0x74 then Some 0x09
      else None)"

definition hex4 :: "code_unit \<Rightarrow> code_unit \<Rightarrow> code_unit \<Rightarrow> code_unit \<Rightarrow> code_unit option" where
  "hex4 a b c d =
     (case (hex_val a, hex_val b, hex_val c, hex_val d) of
        (Some w, Some x, Some y, Some z) \<Rightarrow> Some (of_nat (((w * 16 + x) * 16 + y) * 16 + z))
      | _ \<Rightarrow> None)"

definition lex_escape :: "jsstring \<Rightarrow> (code_unit \<times> nat) option" where
  "lex_escape cs =
     (case cs of
        [] \<Rightarrow> None
      | e # r \<Rightarrow>
          if e = 0x75 then
            (case r of
               a # b # c # d # _ \<Rightarrow> map_option (\<lambda>u. (u, 5)) (hex4 a b c d)
             | _ \<Rightarrow> None)
          else map_option (\<lambda>u. (u, 1)) (unescape e))"

text \<open>The characters of a string literal after its opening quote, up to the closing
  quote: the string denoted and the text that follows. A raw control character ends
  the parse.\<close>

fun lex_string :: "jsstring \<Rightarrow> (jsstring \<times> jsstring) option" where
  "lex_string [] = None"
| "lex_string (c # cs) =
     (if c = 0x22 then Some ([], cs)
      else if c = 0x5C then
        (case lex_escape cs of
           None \<Rightarrow> None
         | Some (u, n) \<Rightarrow>
             (case lex_string (drop n cs) of
                None \<Rightarrow> None
              | Some (s, rest) \<Rightarrow> Some (u # s, rest)))
      else if c < 0x20 then None
      else
        (case lex_string cs of
           None \<Rightarrow> None
         | Some (s, rest) \<Rightarrow> Some (c # s, rest)))"

subsection \<open>Numbers\<close>

text \<open>The grammar is \<open>-? (0 | [1-9][0-9]*) (. [0-9]+)? ([eE] [+-]? [0-9]+)?\<close>. The lexer
  returns the mathematical value of the literal; the token holds its Number value.\<close>

definition lex_int :: "jsstring \<Rightarrow> (jsstring \<times> jsstring) option" where
  "lex_int cs =
     (case cs of
        [] \<Rightarrow> None
      | c # r \<Rightarrow>
          if c = 0x30 then Some ([c], r)
          else if is_digit c then Some (takeWhile is_digit cs, dropWhile is_digit cs)
          else None)"

definition lex_frac :: "jsstring \<Rightarrow> (jsstring \<times> jsstring) option" where
  "lex_frac cs =
     (case cs of
        [] \<Rightarrow> Some ([], [])
      | c # r \<Rightarrow>
          if c = 0x2E then
            (if takeWhile is_digit r = [] then None
             else Some (takeWhile is_digit r, dropWhile is_digit r))
          else Some ([], cs))"

definition lex_sign :: "jsstring \<Rightarrow> bool \<times> jsstring" where
  "lex_sign cs =
     (case cs of
        [] \<Rightarrow> (False, [])
      | c # r \<Rightarrow>
          if c = 0x2B then (False, r)
          else if c = 0x2D then (True, r)
          else (False, cs))"

definition lex_exp :: "jsstring \<Rightarrow> (int \<times> jsstring) option" where
  "lex_exp cs =
     (case cs of
        [] \<Rightarrow> Some (0, [])
      | c # r \<Rightarrow>
          if c = 0x65 \<or> c = 0x45 then
            (case lex_sign r of
               (neg, r') \<Rightarrow>
                 if takeWhile is_digit r' = [] then None
                 else Some ((if neg then - int (digits_val (takeWhile is_digit r'))
                             else int (digits_val (takeWhile is_digit r'))),
                            dropWhile is_digit r'))
          else Some (0, cs))"

definition number_value :: "bool \<Rightarrow> jsstring \<Rightarrow> jsstring \<Rightarrow> int \<Rightarrow> rat" where
  "number_value neg ip fp e =
     (let m = of_nat (digits_val (ip @ fp));
          k = e - int (length fp);
          x = (if 0 \<le> k then m * 10 ^ nat k else m / 10 ^ nat (- k))
      in if neg then - x else x)"

definition lex_number :: "jsstring \<Rightarrow> (rat \<times> jsstring) option" where
  "lex_number cs =
     (case (case cs of [] \<Rightarrow> (False, []) | c # r \<Rightarrow> if c = 0x2D then (True, r) else (False, cs)) of
        (neg, cs1) \<Rightarrow>
          (case lex_int cs1 of
             None \<Rightarrow> None
           | Some (ip, cs2) \<Rightarrow>
               (case lex_frac cs2 of
                  None \<Rightarrow> None
                | Some (fp, cs3) \<Rightarrow>
                    (case lex_exp cs3 of
                       None \<Rightarrow> None
                     | Some (e, cs4) \<Rightarrow> Some (number_value neg ip fp e, cs4)))))"

subsection \<open>Tokens\<close>

datatype token =
    LBrace | RBrace | LBracket | RBracket | Colon | Comma
  | TStr jsstring | TNum number | TTrue | TFalse | TNull

lemma lex_string_shorter: "lex_string cs = Some (s, rest) \<Longrightarrow> length rest < Suc (length cs)"
proof (induction cs arbitrary: s rest rule: lex_string.induct)
  case 1
  then show ?case by simp
next
  case (2 c cs)
  show ?case
  proof (cases "c = 0x22")
    case True
    with "2.prems" show ?thesis by simp
  next
    case False
    note not_quote = this
    show ?thesis
    proof (cases "c = 0x5C")
      case True
      with not_quote "2.prems" obtain u n s' where
        esc: "lex_escape cs = Some (u, n)" and rec: "lex_string (drop n cs) = Some (s', rest)"
        by (auto split: option.splits)
      from "2.IH"(1) [OF not_quote True esc refl rec]
      have "length rest < Suc (length (drop n cs))" .
      then show ?thesis by simp
    next
      case False
      with not_quote "2.prems" obtain s' where
        ctl: "\<not> c < 0x20" and rec: "lex_string cs = Some (s', rest)"
        by (auto split: option.splits if_splits)
      from "2.IH"(2) [OF not_quote False ctl rec]
      show ?thesis by simp
    qed
  qed
qed

lemma lex_int_shorter: "lex_int cs = Some (ip, rest) \<Longrightarrow> length rest < length cs"
  by (auto simp: lex_int_def length_dropWhile_le le_imp_less_Suc
      split: list.splits if_splits)

lemma lex_frac_shorter: "lex_frac cs = Some (fp, rest) \<Longrightarrow> length rest \<le> length cs"
  by (auto simp: lex_frac_def length_dropWhile_le le_SucI split: list.splits if_splits)

lemma lex_sign_shorter: "lex_sign cs = (neg, rest) \<Longrightarrow> length rest \<le> length cs"
  by (auto simp: lex_sign_def split: list.splits if_splits)

lemma lex_exp_shorter: "lex_exp cs = Some (e, rest) \<Longrightarrow> length rest \<le> length cs"
proof (cases cs)
  case Nil
  assume "lex_exp cs = Some (e, rest)"
  with Nil show ?thesis by (simp add: lex_exp_def)
next
  case (Cons c r)
  assume a: "lex_exp cs = Some (e, rest)"
  show ?thesis
  proof (cases "c = 0x65 \<or> c = 0x45")
    case True
    obtain neg r' where sg: "lex_sign r = (neg, r')" by (cases "lex_sign r")
    with a Cons True have "rest = dropWhile is_digit r'"
      by (auto simp: lex_exp_def split: if_splits)
    moreover have "length (dropWhile is_digit r') \<le> length r'" by (rule length_dropWhile_le)
    moreover have "length r' \<le> length r" using sg by (rule lex_sign_shorter)
    ultimately show ?thesis using Cons by simp
  next
    case False
    with a Cons show ?thesis by (auto simp: lex_exp_def)
  qed
qed

lemma lex_number_shorter:
  assumes "lex_number cs = Some (x, rest)"
  shows "length rest < length cs"
proof -
  obtain neg cs1 where
    sg: "(case cs of [] \<Rightarrow> (False, []) | c # r \<Rightarrow> if c = 0x2D then (True, r) else (False, cs)) = (neg, cs1)"
    by (cases "(case cs of [] \<Rightarrow> (False, []) | c # r \<Rightarrow> if c = 0x2D then (True, r) else (False, cs))")
  then have l1: "length cs1 \<le> length cs" by (auto split: list.splits if_splits)
  from assms sg obtain ip cs2 fp cs3 e where
    i: "lex_int cs1 = Some (ip, cs2)" and f: "lex_frac cs2 = Some (fp, cs3)"
    and x: "lex_exp cs3 = Some (e, rest)"
    by (auto simp: lex_number_def split: option.splits)
  from lex_int_shorter [OF i] lex_frac_shorter [OF f] lex_exp_shorter [OF x] l1
  show ?thesis by simp
qed

text \<open>The tokens of a text; \<open>None\<close> when a character starts no token. White space
  between tokens is skipped.\<close>

function tokenize :: "jsstring \<Rightarrow> token list option" where
  "tokenize [] = Some []"
| "tokenize (c # cs) =
     (if is_ws c then tokenize cs
      else if c = 0x7B then map_option (Cons LBrace) (tokenize cs)
      else if c = 0x7D then map_option (Cons RBrace) (tokenize cs)
      else if c = 0x5B then map_option (Cons LBracket) (tokenize cs)
      else if c = 0x5D then map_option (Cons RBracket) (tokenize cs)
      else if c = 0x3A then map_option (Cons Colon) (tokenize cs)
      else if c = 0x2C then map_option (Cons Comma) (tokenize cs)
      else if c = 0x22 then
        (case lex_string cs of
           None \<Rightarrow> None
         | Some (s, rest) \<Rightarrow> map_option (Cons (TStr s)) (tokenize rest))
      else if c = 0x2D \<or> is_digit c then
        (case lex_number (c # cs) of
           None \<Rightarrow> None
         | Some (x, rest) \<Rightarrow> map_option (Cons (TNum (Number_value x))) (tokenize rest))
      else if take 4 (c # cs) = js ''true'' then map_option (Cons TTrue) (tokenize (drop 3 cs))
      else if take 5 (c # cs) = js ''false'' then map_option (Cons TFalse) (tokenize (drop 4 cs))
      else if take 4 (c # cs) = js ''null'' then map_option (Cons TNull) (tokenize (drop 3 cs))
      else None)"
  by pat_completeness auto
termination
  by (relation "measure length") (auto dest: lex_string_shorter lex_number_shorter)

subsection \<open>Values\<close>

text \<open>
  The own properties of an object are kept in the order in which the runtime enumerates
  them: first the keys that are array indices, by ascending index, then the other keys in
  the order of their creation. An array index is the decimal text, without leading zero,
  of an integer below \<open>2^32 - 1\<close>.
\<close>

definition array_index :: "jsstring \<Rightarrow> nat option" where
  "array_index k =
     (if k \<noteq> [] \<and> list_all is_digit k \<and> (k = [0x30] \<or> hd k \<noteq> 0x30) \<and>
         digits_val k < 2 ^ 32 - 1
      then Some (digits_val k)
      else None)"

fun insert_index ::
  "nat \<Rightarrow> jsstring \<Rightarrow> jsval \<Rightarrow> (jsstring \<times> jsval) list \<Rightarrow> (jsstring \<times> jsval) list" where
  "insert_index i k v [] = [(k, v)]"
| "insert_index i k v ((k', v') # ps) =
     (case array_index k' of
        Some j \<Rightarrow> if j < i then (k', v') # insert_index i k v ps else (k, v) # (k', v') # ps
      | None \<Rightarrow> (k, v) # (k', v') # ps)"

fun obj_replace :: "jsstring \<Rightarrow> jsval \<Rightarrow> (jsstring \<times> jsval) list \<Rightarrow> (jsstring \<times> jsval) list" where
  "obj_replace k v [] = []"
| "obj_replace k v ((k', v') # ps) =
     (if k = k' then (k, v) # ps else (k', v') # obj_replace k v ps)"

text \<open>Defining a property of an object: a key that is already there keeps its place and
  takes the new value, so of two equal keys in a text the last one wins; a new key goes
  to its place in the order.\<close>

definition obj_put :: "jsstring \<Rightarrow> jsval \<Rightarrow> (jsstring \<times> jsval) list \<Rightarrow> (jsstring \<times> jsval) list" where
  "obj_put k v ps =
     (if k \<in> fst ` set ps then obj_replace k v ps
      else
        (case array_index k of
           Some i \<Rightarrow> insert_index i k v ps
         | None \<Rightarrow> ps @ [(k, v)]))"

text \<open>
  The parser of the value grammar, on tokens. \<open>parse_value\<close> reads one value;
  \<open>parse_elements\<close> reads the rest of an array after an element, \<open>parse_members\<close> the
  rest of an object after a member. Each returns what it read and the tokens left. The
  tests on the length of what is left are true of every result (a value takes at least one
  token); they are written out to make the recursion well-founded.
\<close>

function parse_value :: "token list \<Rightarrow> (jsval \<times> token list) option"
  and parse_elements :: "jsval list \<Rightarrow> token list \<Rightarrow> (jsval \<times> token list) option"
  and parse_members :: "(jsstring \<times> jsval) list \<Rightarrow> token list \<Rightarrow> (jsval \<times> token list) option"
where
  "parse_value [] = None"
| "parse_value (t # ts) =
     (case t of
        TNull \<Rightarrow> Some (Null, ts)
      | TTrue \<Rightarrow> Some (Bool True, ts)
      | TFalse \<Rightarrow> Some (Bool False, ts)
      | TNum x \<Rightarrow> Some (Num x, ts)
      | TStr s \<Rightarrow> Some (Str s, ts)
      | LBracket \<Rightarrow>
          (case ts of
             RBracket # ts' \<Rightarrow> Some (Arr [], ts')
           | _ \<Rightarrow>
               (case parse_value ts of
                  None \<Rightarrow> None
                | Some (v, ts') \<Rightarrow>
                    if length ts' < length ts then parse_elements [v] ts' else None))
      | LBrace \<Rightarrow>
          (case ts of
             RBrace # ts' \<Rightarrow> Some (Obj [], ts')
           | TStr k # Colon # ts' \<Rightarrow>
               (case parse_value ts' of
                  None \<Rightarrow> None
                | Some (v, ts'') \<Rightarrow>
                    if length ts'' < length ts' then parse_members [(k, v)] ts'' else None)
           | _ \<Rightarrow> None)
      | _ \<Rightarrow> None)"
| "parse_elements acc [] = None"
| "parse_elements acc (t # ts) =
     (case t of
        RBracket \<Rightarrow> Some (Arr acc, ts)
      | Comma \<Rightarrow>
          (case parse_value ts of
             None \<Rightarrow> None
           | Some (v, ts') \<Rightarrow>
               if length ts' < length ts then parse_elements (acc @ [v]) ts' else None)
      | _ \<Rightarrow> None)"
| "parse_members acc [] = None"
| "parse_members acc (t # ts) =
     (case t of
        RBrace \<Rightarrow> Some (Obj acc, ts)
      | Comma \<Rightarrow>
          (case ts of
             TStr k # Colon # ts' \<Rightarrow>
               (case parse_value ts' of
                  None \<Rightarrow> None
                | Some (v, ts'') \<Rightarrow>
                    if length ts'' < length ts' then parse_members (obj_put k v acc) ts'' else None)
           | _ \<Rightarrow> None)
      | _ \<Rightarrow> None)"
  by pat_completeness auto
termination
  by (relation "measure (\<lambda>x. case x of Inl ts \<Rightarrow> length ts
                                      | Inr (Inl (acc, ts)) \<Rightarrow> length ts
                                      | Inr (Inr (acc, ts)) \<Rightarrow> length ts)") auto

text \<open>\<open>JSON.parse(text)\<close>: one value, with nothing but white space around it; a
  \<open>SyntaxError\<close> otherwise.\<close>

definition JSON_parse :: "jsstring \<Rightarrow> error + jsval" where
  "JSON_parse text =
     (case tokenize text of
        None \<Rightarrow> Inl SyntaxError
      | Some ts \<Rightarrow>
          (case parse_value ts of
             Some (v, []) \<Rightarrow> Inr v
           | _ \<Rightarrow> Inl SyntaxError))"

subsection \<open>Serialization\<close>

text \<open>An integer in decimal digits, with a minus sign when it is negative.\<close>

fun show_nat :: "nat \<Rightarrow> jsstring" where
  "show_nat n = (if n < 10 then [digit_char n] else show_nat (n div 10) @ [digit_char (n mod 10)])"

declare show_nat.simps [simp del]

definition show_int :: "int \<Rightarrow> jsstring" where
  "show_int i = (if i < 0 then 0x2D # show_nat (nat (- i)) else show_nat (nat i))"

text \<open>
  The text of a number in \<open>JSON.stringify\<close>: \<open>null\<close> for what is not finite, and
  \<open>Number::toString\<close> otherwise, which is the shortest decimal text that reads back as
  the same double. For an integer of magnitude below \<open>2^53\<close> that is its decimal digits:
  the doubles next to it are at least a half away, so no shorter text reads back as it.
  (From \<open>2^54\<close> on it is not: \<open>2^64\<close> is printed \<open>18446744073709552000\<close>.) For the
  other doubles this part of the runtime is not modelled and is the parameter
  \<open>Number_toString\<close>, which takes the value of the double.
\<close>

definition show_number :: "(rat \<Rightarrow> jsstring) \<Rightarrow> number \<Rightarrow> jsstring" where
  "show_number Number_toString n =
     (case n of
        Finite x \<Rightarrow>
          if of_int \<lfloor>x\<rfloor> = x \<and> \<bar>x\<bar> < 2 ^ 53 then show_int \<lfloor>x\<rfloor> else Number_toString x
      | _ \<Rightarrow> js ''null'')"

text \<open>\<open>\uXXXX\<close> with lower-case hexadecimal digits.\<close>

definition unicode_escape :: "code_unit \<Rightarrow> jsstring" where
  "unicode_escape c =
     [0x5C, 0x75, hex_char (unat c div 4096), hex_char (unat c div 256 mod 16),
      hex_char (unat c div 16 mod 16), hex_char (unat c mod 16)]"

definition escape :: "code_unit \<Rightarrow> jsstring" where
  "escape c =
     (if c = 0x08 then [0x5C, 0x62]
      else if c = 0x09 then [0x5C, 0x74]
      else if c = 0x0A then [0x5C, 0x6E]
      else if c = 0x0C then [0x5C, 0x66]
      else if c = 0x0D then [0x5C, 0x72]
      else if c = 0x22 then [0x5C, 0x22]
      else if c = 0x5C then [0x5C, 0x5C]
      else if c < 0x20 \<or> is_high_surrogate c \<or> is_low_surrogate c then unicode_escape c
      else [c])"

text \<open>\<open>QuoteJSONString\<close> without the quotes: a surrogate pair is copied, a surrogate on
  its own is escaped.\<close>

fun quote_chars :: "jsstring \<Rightarrow> jsstring" where
  "quote_chars [] = []"
| "quote_chars [c] = escape c"
| "quote_chars (c # d # cs) =
     (if is_high_surrogate c \<and> is_low_surrogate d then c # d # quote_chars cs
      else escape c @ quote_chars (d # cs))"

definition quote :: "jsstring \<Rightarrow> jsstring" where
  "quote s = [0x22] @ quote_chars s @ [0x22]"

text \<open>The items of an array or object, separated by commas.\<close>

fun commas :: "jsstring list \<Rightarrow> jsstring" where
  "commas [] = []"
| "commas [x] = x"
| "commas (x # y # ys) = x @ [0x2C] @ commas (y # ys)"

text \<open>
  \<open>JSON.stringify(value)\<close> without indentation. A property whose value is \<open>undefined\<close> is
  left out of an object; in an array \<open>undefined\<close> is written \<open>null\<close>. (For \<open>undefined\<close>
  itself the runtime returns \<open>undefined\<close> and not a text; \<open>toJSON\<close> below always passes an
  object.) The first argument is \<open>Number_toString\<close>.
\<close>

fun JSON_stringify :: "(rat \<Rightarrow> jsstring) \<Rightarrow> jsval \<Rightarrow> jsstring" where
  "JSON_stringify f Undefined = js ''null''"
| "JSON_stringify f Null = js ''null''"
| "JSON_stringify f (Bool b) = (if b then js ''true'' else js ''false'')"
| "JSON_stringify f (Num n) = show_number f n"
| "JSON_stringify f (Str s) = quote s"
| "JSON_stringify f (Arr vs) = [0x5B] @ commas (map (JSON_stringify f) vs) @ [0x5D]"
| "JSON_stringify f (Obj ps) =
     [0x7B] @
     commas (map (\<lambda>(k, v). quote k @ [0x3A] @ JSON_stringify f v)
               (filter (\<lambda>(k, v). v \<noteq> Undefined) ps)) @
     [0x7D]"

section \<open>The coin\<close>

text \<open>
  \<^verbatim>\<open>
  export class Coin {
      txid: string; vout: number; value: number; address: string;
      status: CoinStatus; tweak?: string;
      constructor(partial: Partial<Coin>) { Object.assign(this, partial); }
  \<close>
  The six declared fields are own properties of every coin, as class fields are; one
  that was never assigned reads as \<open>undefined\<close>. \<open>Object.assign\<close> copies whatever
  properties its source has, so a coin can have own properties under other names too:
  they are kept in \<open>others\<close>, in the order in which the runtime enumerates them. The prototype of a coin is that of the
  class, with the four methods, unless an assignment to \<open>__proto__\<close> has put a value in
  its place: \<open>proto\<close> is \<open>None\<close> for the prototype of the class and the value otherwise.
\<close>

record Coin =
  txid :: jsval
  vout :: jsval
  "value" :: jsval
  address :: jsval
  status :: jsval
  tweak :: jsval
  others :: "(jsstring \<times> jsval) list"
  proto :: "jsval option"

text \<open>
  \<open>Object.assign(this, partial)\<close> copies the own enumerable properties of its source, in
  their order. A string has one property per code unit and an array one per element,
  under the index as key; a number, a boolean, \<open>null\<close> and \<open>undefined\<close> have none.

  Each property is assigned with \<open>this[k] = v\<close>. For the key \<open>__proto__\<close> that runs the
  setter of \<open>Object.prototype\<close>, as long as the setter is found from the coin: it puts an
  object, an array or \<open>null\<close> in the place of the prototype and ignores every other
  value. The setter is no longer found when the coin has an own property of that name,
  or its prototype is \<open>null\<close> or an object with an own property of that name (which an
  object of a JSON text can have); the assignment then makes an own property like any
  other.
\<close>

fun own_properties :: "jsval \<Rightarrow> (jsstring \<times> jsval) list" where
  "own_properties (Obj ps) = ps"
| "own_properties (Arr vs) = zip (map show_nat [0..<length vs]) vs"
| "own_properties (Str s) = zip (map show_nat [0..<length s]) (map (\<lambda>c. Str [c]) s)"
| "own_properties _ = []"

definition is_object_or_null :: "jsval \<Rightarrow> bool" where
  "is_object_or_null v = (case v of Null \<Rightarrow> True | Arr vs \<Rightarrow> True | Obj ps \<Rightarrow> True | _ \<Rightarrow> False)"

definition finds_proto_setter :: "Coin \<Rightarrow> bool" where
  "finds_proto_setter this \<longleftrightarrow>
     js ''__proto__'' \<notin> fst ` set (others this) \<and>
     (case proto this of
        None \<Rightarrow> True
      | Some (Obj ps) \<Rightarrow> js ''__proto__'' \<notin> fst ` set ps
      | Some Null \<Rightarrow> False
      | Some v \<Rightarrow> True)"

definition set_property :: "Coin \<Rightarrow> jsstring \<times> jsval \<Rightarrow> Coin" where
  "set_property this p =
     (case p of
        (k, v) \<Rightarrow>
          if k = js ''txid'' then this\<lparr>txid := v\<rparr>
          else if k = js ''vout'' then this\<lparr>vout := v\<rparr>
          else if k = js ''value'' then this\<lparr>value := v\<rparr>
          else if k = js ''address'' then this\<lparr>address := v\<rparr>
          else if k = js ''status'' then this\<lparr>status := v\<rparr>
          else if k = js ''tweak'' then this\<lparr>tweak := v\<rparr>
          else if k = js ''__proto__'' \<and> finds_proto_setter this then
            (if is_object_or_null v then this\<lparr>proto := Some v\<rparr> else this)
          else this\<lparr>others := obj_put k v (others this)\<rparr>)"

definition Object_assign :: "Coin \<Rightarrow> jsval \<Rightarrow> Coin" where
  "Object_assign this source = foldl set_property this (own_properties source)"

text \<open>\<^verbatim>\<open>constructor(partial: Partial<Coin>) { Object.assign(this, partial); }\<close>\<close>

definition new_Coin :: "jsval \<Rightarrow> Coin" where
  "new_Coin partial =
     Object_assign
       \<lparr>txid = Undefined, vout = Undefined, value = Undefined, address = Undefined,
        status = Undefined, tweak = Undefined, others = [], proto = None\<rparr>
       partial"

section \<open>Codec\<close>

text \<open>
  \<^verbatim>\<open>
  static fromJSON(json: string): Coin {
      return new Coin(JSON.parse(json));
  }
  \<close>
\<close>

definition fromJSON :: "jsstring \<Rightarrow> error + Coin" where
  "fromJSON json =
     (case JSON_parse json of
        Inl e \<Rightarrow> Inl e
      | Inr v \<Rightarrow> Inr (new_Coin v))"

text \<open>
  \<^verbatim>\<open>
  toJSON(): string {
      return JSON.stringify({
          txid: this.txid, vout: this.vout, value: this.value,
          address: this.address, status: this.status, tweak: this.tweak,
      });
  }
  \<close>
\<close>

definition toJSON :: "(rat \<Rightarrow> jsstring) \<Rightarrow> Coin \<Rightarrow> jsstring" where
  "toJSON Number_toString this =
     JSON_stringify Number_toString
       (Obj [(js ''txid'', txid this),
             (js ''vout'', vout this),
             (js ''value'', value this),
             (js ''address'', address this),
             (js ''status'', status this),
             (js ''tweak'', tweak this)])"

section \<open>Input builder\<close>

text \<open>
  \<open>toInput\<close> calls two libraries that are not part of the repository:
  \<open>ecc.xOnlyPointAddTweak\<close> of tiny-secp256k1 and \<open>toOutputScript\<close> of bitcoinjs-lib. They
  are parameters of the model, after the parameter for \<open>Buffer.from\<close>. \<open>xOnlyPointAddTweak\<close> throws, returns \<open>null\<close> (here
  \<open>None\<close>) or returns a result object; \<open>toOutputScript\<close> throws or returns a script. The
  type of the network parameters is left open.
\<close>

record XOnlyPointAddTweakResult =
  parity :: nat
  xOnlyPubkey :: buffer

type_synonym ecc_add = "buffer \<Rightarrow> buffer \<Rightarrow> error + XOnlyPointAddTweakResult option"
type_synonym 'n address_decoder = "jsval \<Rightarrow> 'n \<Rightarrow> error + buffer"

text \<open>The object that \<open>toInput\<close> returns; \<open>tapInternalKey\<close> is there on the taproot path
  only.\<close>

record WitnessUtxo =
  script :: buffer
  "value" :: jsval

record Input =
  hash :: jsval
  index :: jsval
  witnessUtxo :: WitnessUtxo
  tapInternalKey :: "buffer option"

text \<open>The test of \<open>if (this.tweak)\<close>: \<open>undefined\<close>, \<open>null\<close>, \<open>false\<close>, \<open>0\<close>, \<open>NaN\<close> and
  the empty string count as false.\<close>

fun truthy :: "jsval \<Rightarrow> bool" where
  "truthy Undefined = False"
| "truthy Null = False"
| "truthy (Bool b) = b"
| "truthy (Num n) = (n \<noteq> Finite 0 \<and> n \<noteq> NaN)"
| "truthy (Str s) = (s \<noteq> [])"
| "truthy (Arr vs) = True"
| "truthy (Obj ps) = True"

text \<open>Decoding \<open>'hex'\<close>: two digits make a byte; the decoding stops at the first pair
  that is not two hexadecimal digits, and a last single character is dropped.\<close>

fun hex_decode :: "jsstring \<Rightarrow> buffer" where
  "hex_decode (a # b # cs) =
     (case (hex_val a, hex_val b) of
        (Some x, Some y) \<Rightarrow> of_nat (16 * x + y) # hex_decode cs
      | _ \<Rightarrow> [])"
| "hex_decode _ = []"

text \<open>
  \<open>Buffer.from(x, 'hex')\<close>. The field \<open>tweak\<close> is declared a string, and a string is
  decoded. For a number or a boolean \<open>Buffer.from\<close> throws a \<open>TypeError\<close>. An array or an
  object is converted by rules of Node that are not modelled: what \<open>Buffer.from\<close> does
  with them is the parameter \<open>Buffer_from_object\<close>.
\<close>

definition Buffer_from_hex :: "(jsval \<Rightarrow> error + buffer) \<Rightarrow> jsval \<Rightarrow> error + buffer" where
  "Buffer_from_hex Buffer_from_object x =
     (case x of
        Str s \<Rightarrow> Inr (hex_decode s)
      | Arr vs \<Rightarrow> Buffer_from_object x
      | Obj ps \<Rightarrow> Buffer_from_object x
      | _ \<Rightarrow> Inl TypeError)"

text \<open>\<open>buf.subarray(start, end)\<close> for \<open>start \<le> end \<le> buf.length\<close>.\<close>

definition subarray :: "buffer \<Rightarrow> nat \<Rightarrow> nat \<Rightarrow> buffer" where
  "subarray buf start end = take (end - start) (drop start buf)"

text \<open>
  \<^verbatim>\<open>
  toInput(network: Network, spendPubBuffer: Buffer) {
      // ensure x-only, if it's a compressed pubkey
      if (spendPubBuffer.length === 33 &&
          (spendPubBuffer[0] === 0x02 || spendPubBuffer[0] === 0x03)) {
          spendPubBuffer = spendPubBuffer.subarray(1, 33);
      }
      if (this.tweak) {
          const tweakBuf = Buffer.from(this.tweak, 'hex');
          const result = ecc.xOnlyPointAddTweak(spendPubBuffer, tweakBuf);
          const { xOnlyPubkey } = result;
          return {
              hash: this.txid, index: this.vout,
              witnessUtxo: {
                  script: Buffer.concat([Buffer.from([0x51, 0x20]), xOnlyPubkey]),
                  value: this.value,
              },
              tapInternalKey: spendPubBuffer,
          };
      } else {
          return {
              hash: this.txid, index: this.vout,
              witnessUtxo: {
                  script: toOutputScript(this.address, network),
                  value: this.value,
              },
          };
      }
  }
  \<close>
  The first statement is \<open>x_only\<close>. Destructuring \<open>null\<close> throws a \<open>TypeError\<close>.
\<close>

definition x_only :: "buffer \<Rightarrow> buffer" where
  "x_only spendPubBuffer =
     (if length spendPubBuffer = 33 \<and> (spendPubBuffer ! 0 = 0x02 \<or> spendPubBuffer ! 0 = 0x03)
      then subarray spendPubBuffer 1 33
      else spendPubBuffer)"

definition toInput ::
  "(jsval \<Rightarrow> error + buffer) \<Rightarrow> ecc_add \<Rightarrow> 'n address_decoder \<Rightarrow>
   Coin \<Rightarrow> 'n \<Rightarrow> buffer \<Rightarrow> error + Input" where
  "toInput Buffer_from_object xOnlyPointAddTweak toOutputScript this network spendPubBuffer0 =
     (let spendPubBuffer = x_only spendPubBuffer0 in
      if truthy (tweak this) then
        (case Buffer_from_hex Buffer_from_object (tweak this) of
           Inl e \<Rightarrow> Inl e
         | Inr tweakBuf \<Rightarrow>
             (case xOnlyPointAddTweak spendPubBuffer tweakBuf of
                Inl e \<Rightarrow> Inl e
              | Inr None \<Rightarrow> Inl TypeError
              | Inr (Some result) \<Rightarrow>
                  Inr \<lparr>hash = txid this,
                       index = vout this,
                       witnessUtxo =
                         \<lparr>script = [0x51, 0x20] @ xOnlyPubkey result, value = Coin.value this\<rparr>,
                       tapInternalKey = Some spendPubBuffer\<rparr>))
      else
        (case toOutputScript (address this) network of
           Inl e \<Rightarrow> Inl e
         | Inr s \<Rightarrow>
             Inr \<lparr>hash = txid this,
                  index = vout this,
                  witnessUtxo = \<lparr>script = s, value = Coin.value this\<rparr>,
                  tapInternalKey = None\<rparr>))"

section \<open>Fee estimator\<close>

text \<open>Modelled from the spec: the constant \<open>WITNESS_SCALE_FACTOR\<close> is imported from
  \<open>./consensus.ts\<close>, which is not among the source files; the specification gives the
  scale factor 4.\<close>

definition WITNESS_SCALE_FACTOR :: int where
  "WITNESS_SCALE_FACTOR = 4"

text \<open>\<open>x | 0\<close> on a finite number: the fraction is cut off towards zero and the integer
  is wrapped into the signed 32-bit range (ToInt32).\<close>

definition trunc :: "rat \<Rightarrow> int" where
  "trunc x = (if x < 0 then - \<lfloor>- x\<rfloor> else \<lfloor>x\<rfloor>)"

definition bitor_zero :: "rat \<Rightarrow> int" where
  "bitor_zero x = sint (word_of_int (trunc x) :: 32 word)"

text \<open>
  \<^verbatim>\<open>
  estimateSpendingSize(): number {
      let total = 0;
      total += 32 + 4 + 4;
      total += 1;
      let size = 0;
      size += 1;
      size += 1 + 73;
      size += 1 + 33;
      size = ((size + WITNESS_SCALE_FACTOR - 1) / WITNESS_SCALE_FACTOR) | 0;
      total += size;
      return total;
  }
  \<close>
  The assignments are threaded through \<open>let\<close>. The division is the exact one of
  JavaScript numbers; only \<open>| 0\<close> makes the quotient an integer.
\<close>

definition estimateSpendingSize :: "Coin \<Rightarrow> int" where
  "estimateSpendingSize this =
     (let total = 0;
          total = total + (32 + 4 + 4);
          total = total + 1;
          size = 0;
          size = size + 1;
          size = size + (1 + 73);
          size = size + (1 + 33);
          size = bitor_zero (of_int (size + WITNESS_SCALE_FACTOR - 1) / of_int WITNESS_SCALE_FACTOR);
          total = total + size
      in total)"

text \<open>Whether the coin has an own property of the name \<open>k\<close>, for a \<open>k\<close> that is none of
  the six fields.\<close>

definition has_own_property :: "Coin \<Rightarrow> jsstring \<Rightarrow> bool" where
  "has_own_property this k \<longleftrightarrow> k \<in> fst ` set (others this)"

text \<open>Whether \<open>this.k\<close> is the method \<open>k\<close> of the class: no own property hides it, and the
  prototype of the coin is still that of the class.\<close>

definition has_method :: "Coin \<Rightarrow> jsstring \<Rightarrow> bool" where
  "has_method this k \<longleftrightarrow> \<not> has_own_property this k \<and> proto this = None"

text \<open>
  \<^verbatim>\<open>
  estimateSpendingFee(feeRate: number): number {
      return this.estimateSpendingSize() * feeRate;
  }
  \<close>
  \<open>this.estimateSpendingSize\<close> is looked up on the coin and then on its prototype. An
  own property of that name hides the method of the class, and a prototype that was
  replaced does not have it. What is found then is \<open>undefined\<close> or another value of a JSON
  text, not a function, and calling it throws a \<open>TypeError\<close>. The product is the one of
  doubles.
\<close>

definition estimateSpendingFee :: "Coin \<Rightarrow> number \<Rightarrow> error + number" where
  "estimateSpendingFee this feeRate =
     (if has_method this (js ''estimateSpendingSize'')
      then Inr (number_times (Finite (of_int (estimateSpendingSize this))) feeRate)
      else Inl TypeError)"

section \<open>Properties of the fee estimator\<close>

lemma ceiling_109_over_4: "\<lceil>(109 :: rat) / 4\<rceil> = 28"
  by (rule ceiling_unique) simp_all

text \<open>
  Claim C5. For every coin, whatever its fields hold and whether or not it has a tweak,
  \<open>estimateSpendingSize\<close> returns exactly 69: the 41 non-witness bytes plus the integer
  ceiling of the 109 witness bytes over the witness scale factor 4.
\<close>

theorem estimateSpendingSize_is_69:
  "estimateSpendingSize c = 69 \<and>
   estimateSpendingSize c = 41 + \<lceil>(109 :: rat) / of_int WITNESS_SCALE_FACTOR\<rceil>"
  by (simp add: estimateSpendingSize_def WITNESS_SCALE_FACTOR_def bitor_zero_def trunc_def
      ceiling_109_over_4)

section \<open>Reading back what was written\<close>

subsection \<open>Rounding an integer\<close>

lemma bit_length_0: "bit_length 0 = 0"
  by (simp add: bit_length.simps [of 0])

lemma bit_length_pos: "0 < n \<Longrightarrow> 1 \<le> bit_length n"
proof -
  assume "0 < n"
  then have "bit_length n = 1 + bit_length (n div 2)" by (simp add: bit_length.simps [of n])
  moreover have "0 \<le> bit_length m" for m
    by (induction m rule: bit_length.induct) (simp add: bit_length.simps)
  ultimately show ?thesis by (simp add: add_increasing2)
qed

lemma bit_length_lower: "0 < n \<Longrightarrow> 2 ^ nat (bit_length n - 1) \<le> n"
proof (induction n rule: bit_length.induct)
  case (1 n)
  then have n: "0 < n" by simp
  then have bl: "bit_length n = 1 + bit_length (n div 2)" by (simp add: bit_length.simps [of n])
  show ?case
  proof (cases "n div 2 = 0")
    case True
    then have "bit_length (n div 2) = 0" by (simp add: bit_length_0)
    with bl n show ?thesis by simp
  next
    case False
    with n have h: "0 < n div 2" by (simp add: pos_imp_zdiv_pos_iff)
    with "1.IH" n have ih: "2 ^ nat (bit_length (n div 2) - 1) \<le> n div 2" by simp
    have "1 \<le> bit_length (n div 2)" using h by (rule bit_length_pos)
    then have "nat (bit_length n - 1) = Suc (nat (bit_length (n div 2) - 1))"
      using bl by simp
    then have "(2::int) ^ nat (bit_length n - 1) = 2 * 2 ^ nat (bit_length (n div 2) - 1)"
      by simp
    also have "\<dots> \<le> 2 * (n div 2)" using ih by simp
    also have "\<dots> \<le> n" by simp
    finally show ?thesis .
  qed
qed

lemma floor_log2_of_int:
  assumes "0 < n"
  shows "floor_log2 (of_int n) = bit_length n - 1"
proof -
  have one: "bit_length 1 = 1"
    by (simp add: bit_length.simps [of 1] bit_length_0)
  have "(2::int) ^ nat (bit_length n - 1) \<le> n" using assms by (rule bit_length_lower)
  then have "(of_int ((2::int) ^ nat (bit_length n - 1)) :: rat) \<le> of_int n"
    by (simp only: of_int_le_iff)
  moreover have "0 \<le> bit_length n - 1" using bit_length_pos [OF assms] by simp
  ultimately have "(2::rat) powi (bit_length n - 1) \<le> of_int n"
    by (simp add: power_int_def)
  then show ?thesis by (simp add: floor_log2_def one)
qed

lemma round_half_even_of_int: "round_half_even (of_int m) = m"
  by (simp add: round_half_even_def)

lemma Number_value_safe_integer:
  assumes "\<bar>i\<bar> < 2 ^ 53"
  shows "Number_value (of_int i) = Finite (of_int i)"
proof (cases "i = 0")
  case True
  then show ?thesis by (simp add: Number_value_def)
next
  case False
  define n where "n = \<bar>i\<bar>"
  have n: "0 < n" "n < 2 ^ 53" using False assms by (simp_all add: n_def)
  define e where "e = bit_length n - 1"
  have e0: "0 \<le> e" using bit_length_pos [OF n(1)] by (simp add: e_def)
  have "(2::int) ^ nat e \<le> n" unfolding e_def using n(1) by (rule bit_length_lower)
  with n(2) have "(2::int) ^ nat e < 2 ^ 53" by simp
  then have "nat e < 53" by (simp only: power_strict_increasing_iff) 
  then have e52: "e \<le> 52" by simp
  define s where "s = nat (52 - e)"
  have q: "max (e - 52) (- 1074) = - int s" using e0 e52 by (simp add: s_def)
  have abs: "\<bar>of_int i :: rat\<bar> = of_int n" by (simp add: n_def)
  have fl: "floor_log2 (of_int n) = e" using n(1) by (simp add: floor_log2_of_int e_def)
  have pw: "(2::rat) powi (- int s) = 1 / 2 ^ s"
    by (simp add: power_int_minus field_simps)
  have sc: "(of_int n :: rat) / 2 powi (- int s) = of_int (n * 2 ^ s)"
    by (simp add: pw)
  have y: "(of_int (n * 2 ^ s) :: rat) * 2 powi (- int s) = of_int n"
    by (simp add: pw)
  have small: "\<not> (2 ^ 1024 \<le> (of_int n :: rat))"
  proof -
    have "(of_int n :: rat) < of_int (2 ^ 53)" using n(2) by (simp only: of_int_less_iff)
    also have "(of_int (2 ^ 53) :: rat) \<le> 2 ^ 1024" by simp
    finally show ?thesis by simp
  qed
  have sgn: "(if 0 < (of_int i :: rat) then of_int n else - of_int n) = (of_int i :: rat)"
    by (simp add: n_def)
  have "Number_value (of_int i) =
      (let e = floor_log2 \<bar>of_int i :: rat\<bar>;
           q = max (e - 52) (- 1074);
           y = of_int (round_half_even (\<bar>of_int i :: rat\<bar> / 2 powi q)) * 2 powi q
       in if 2 ^ 1024 \<le> y then (if 0 < (of_int i :: rat) then PosInfinity else NegInfinity)
          else Finite (if 0 < (of_int i :: rat) then y else - y))"
    using False by (simp add: Number_value_def)
  also have "\<dots> = Finite (of_int i)"
    unfolding abs fl Let_def q sc round_half_even_of_int y using small sgn by (simp only: if_False)
  finally show ?thesis .
qed

lemma safe_integer_floor:
  fixes x :: rat
  assumes fl: "of_int \<lfloor>x\<rfloor> = x" and small: "\<bar>x\<bar> < 2 ^ 53"
  shows "\<bar>\<lfloor>x\<rfloor>\<bar> < 2 ^ 53"
proof -
  from small have "\<bar>of_int \<lfloor>x\<rfloor> :: rat\<bar> < 2 ^ 53" by (simp only: fl)
  then have "(of_int \<bar>\<lfloor>x\<rfloor>\<bar> :: rat) < of_int (2 ^ 53)" by simp
  then show ?thesis by (simp only: of_int_less_iff)
qed

subsection \<open>Numbers\<close>

lemma unat_digit_char: "d < 10 \<Longrightarrow> unat (digit_char d) = 48 + d"
  by (simp only: digit_char_def unat_of_nat) simp

lemma is_digit_digit_char: "d < 10 \<Longrightarrow> is_digit (digit_char d)"
  by (simp add: is_digit_def word_le_nat_alt unat_digit_char)

lemma digit_val_digit_char: "d < 10 \<Longrightarrow> digit_val (digit_char d) = d"
  by (simp add: digit_val_def unat_digit_char)

lemma digit_char_zero: "d < 10 \<Longrightarrow> digit_char d = 0x30 \<longleftrightarrow> d = 0"
proof -
  assume d: "d < 10"
  have "digit_char d = 0x30 \<longleftrightarrow> unat (digit_char d) = unat (0x30 :: code_unit)"
    by (simp only: word_unat_eq_iff)
  with d show ?thesis by (simp add: unat_digit_char)
qed

lemma show_nat_digits: "c \<in> set (show_nat n) \<Longrightarrow> is_digit c"
proof (induction n arbitrary: c rule: show_nat.induct)
  case (1 n)
  show ?case
  proof (cases "n < 10")
    case True
    with "1.prems" show ?thesis by (simp add: show_nat.simps [of n] is_digit_digit_char)
  next
    case False
    with "1.prems" have "c \<in> set (show_nat (n div 10)) \<or> c = digit_char (n mod 10)"
      by (auto simp: show_nat.simps [of n])
    then show ?thesis using "1.IH" [OF False] by (auto simp: is_digit_digit_char)
  qed
qed

lemma show_nat_not_Nil: "show_nat n \<noteq> []"
  by (simp add: show_nat.simps [of n])

lemma digits_val_snoc: "digits_val (ds @ [c]) = 10 * digits_val ds + digit_val c"
  by (simp add: digits_val_def)

lemma digits_val_show_nat: "digits_val (show_nat n) = n"
proof (induction n rule: show_nat.induct)
  case (1 n)
  show ?case
  proof (cases "n < 10")
    case True
    then show ?thesis by (simp add: show_nat.simps [of n] digits_val_def digit_val_digit_char)
  next
    case False
    with "1.IH" show ?thesis
      by (simp add: show_nat.simps [of n] digits_val_snoc digit_val_digit_char)
  qed
qed

lemma hd_show_nat: "hd (show_nat n) = 0x30 \<longleftrightarrow> n = 0"
proof (induction n rule: show_nat.induct)
  case (1 n)
  show ?case
  proof (cases "n < 10")
    case True
    then show ?thesis by (simp add: show_nat.simps [of n] digit_char_zero)
  next
    case False
    then have "n div 10 \<noteq> 0" by simp
    with "1.IH" [OF False] False show ?thesis
      by (simp add: show_nat.simps [of n] show_nat_not_Nil)
  qed
qed

definition number_end :: "jsstring \<Rightarrow> bool" where
  "number_end r \<longleftrightarrow>
     (case r of [] \<Rightarrow> True | c # _ \<Rightarrow> \<not> is_digit c \<and> c \<noteq> 0x2E \<and> c \<noteq> 0x65 \<and> c \<noteq> 0x45)"

lemma takeWhile_show_nat:
  assumes "number_end r"
  shows "takeWhile is_digit (show_nat n @ r) = show_nat n"
    and "dropWhile is_digit (show_nat n @ r) = r"
proof -
  have r: "takeWhile is_digit r = []" "dropWhile is_digit r = r"
    using assms by (auto simp: number_end_def split: list.splits)
  show "takeWhile is_digit (show_nat n @ r) = show_nat n"
    by (simp add: takeWhile_append2 show_nat_digits r)
  show "dropWhile is_digit (show_nat n @ r) = r"
    by (simp add: dropWhile_append2 show_nat_digits r)
qed

lemma lex_int_show_nat:
  assumes "number_end r"
  shows "lex_int (show_nat n @ r) = Some (show_nat n, r)"
proof (cases "n = 0")
  case True
  then show ?thesis by (simp add: show_nat.simps [of 0] lex_int_def digit_char_def)
next
  case False
  obtain c cs where s: "show_nat n = c # cs"
    using show_nat_not_Nil [of n] by (cases "show_nat n") auto
  then have "c \<noteq> 0x30" using hd_show_nat [of n] False by simp
  moreover have "is_digit c" using s show_nat_digits [of c n] by simp
  moreover have "takeWhile is_digit (c # cs @ r) = c # cs" "dropWhile is_digit (c # cs @ r) = r"
    using takeWhile_show_nat [OF assms, of n] s by simp_all
  ultimately show ?thesis using s by (simp add: lex_int_def)
qed

lemma lex_frac_number_end: "number_end r \<Longrightarrow> lex_frac r = Some ([], r)"
  by (auto simp: number_end_def lex_frac_def split: list.splits)

lemma lex_exp_number_end: "number_end r \<Longrightarrow> lex_exp r = Some (0, r)"
  by (auto simp: number_end_def lex_exp_def split: list.splits)

lemma hd_show_nat_not_minus: "show_nat n = c # cs \<Longrightarrow> c \<noteq> 0x2D"
proof
  assume "show_nat n = c # cs" "c = 0x2D"
  then have "is_digit 0x2D" using show_nat_digits [of c n] by simp
  then show False by (simp add: is_digit_def)
qed

lemma lex_number_show_int:
  assumes "number_end r"
  shows "lex_number (show_int i @ r) = Some (of_int i, r)"
proof (cases "i < 0")
  case True
  then have "(of_int i :: rat) = - of_nat (nat (- i))" by simp
  with True show ?thesis
    by (simp add: show_int_def lex_number_def lex_int_show_nat [OF assms]
        lex_frac_number_end [OF assms] lex_exp_number_end [OF assms]
        number_value_def digits_val_show_nat)
next
  case False
  obtain c cs where s: "show_nat (nat i) = c # cs"
    using show_nat_not_Nil [of "nat i"] by (cases "show_nat (nat i)") auto
  have c: "c \<noteq> 0x2D" using s by (rule hd_show_nat_not_minus)
  have "lex_int (c # cs @ r) = Some (c # cs, r)"
    using lex_int_show_nat [OF assms, of "nat i"] s by simp
  moreover have "digits_val (c # cs) = nat i" using digits_val_show_nat [of "nat i"] s by simp
  ultimately show ?thesis using False s c
    by (simp add: show_int_def lex_number_def
        lex_frac_number_end [OF assms] lex_exp_number_end [OF assms] number_value_def)
qed

subsection \<open>Strings\<close>

lemma unat_hex_char: "d < 16 \<Longrightarrow> unat (hex_char d) = (if d < 10 then 48 + d else 87 + d)"
  by (simp only: hex_char_def unat_of_nat split: if_splits) simp

lemma hex_val_hex_char: "d < 16 \<Longrightarrow> hex_val (hex_char d) = Some d"
  by (simp add: hex_val_def is_digit_def word_le_nat_alt unat_hex_char)

lemma hex4_unicode_escape:
  "hex4 (hex_char (unat c div 4096)) (hex_char (unat c div 256 mod 16))
        (hex_char (unat c div 16 mod 16)) (hex_char (unat c mod 16)) = Some (c :: code_unit)"
proof -
  have lt: "unat c < 65536" using unsigned_less [of c, where ?'a = nat] by simp
  then have d: "unat c div 4096 < 16" by simp
  have h3: "unat c div 4096 * 16 + unat c div 256 mod 16 = unat c div 256"
  proof -
    have "unat c div 4096 = unat c div 256 div 16" by (simp add: div_mult2_eq [symmetric])
    then show ?thesis by (simp only: div_mult_mod_eq)
  qed
  have h2: "unat c div 256 * 16 + unat c div 16 mod 16 = unat c div 16"
  proof -
    have "unat c div 256 = unat c div 16 div 16" by (simp add: div_mult2_eq [symmetric])
    then show ?thesis by (simp only: div_mult_mod_eq)
  qed
  have h1: "unat c div 16 * 16 + unat c mod 16 = unat c"
    by (simp only: div_mult_mod_eq)
  have "((unat c div 4096 * 16 + unat c div 256 mod 16) * 16 + unat c div 16 mod 16) * 16
          + unat c mod 16 = unat c"
    by (simp only: h3 h2 h1)
  then show ?thesis
    by (simp add: hex4_def hex_val_hex_char d)
qed

definition cons_lexed :: "code_unit \<Rightarrow> (jsstring \<times> jsstring) option \<Rightarrow> (jsstring \<times> jsstring) option" where
  "cons_lexed c r = (case r of None \<Rightarrow> None | Some (s, rest) \<Rightarrow> Some (c # s, rest))"

lemma lex_string_unicode_escape:
  "lex_string (unicode_escape c @ tail) = cons_lexed c (lex_string tail)"
  by (simp add: unicode_escape_def lex_escape_def hex4_unicode_escape cons_lexed_def
      split: option.splits)

lemma lex_string_raw:
  "c \<noteq> 0x22 \<Longrightarrow> c \<noteq> 0x5C \<Longrightarrow> \<not> c < 0x20 \<Longrightarrow>
   lex_string (c # tail) = cons_lexed c (lex_string tail)"
  by (simp add: cons_lexed_def split: option.splits)

lemma lex_string_escape: "lex_string (escape c @ tail) = cons_lexed c (lex_string tail)"
proof -
  consider (short) "c = 0x08 \<or> c = 0x09 \<or> c = 0x0A \<or> c = 0x0C \<or> c = 0x0D \<or> c = 0x22 \<or> c = 0x5C"
    | (uni) "\<not> (c = 0x08 \<or> c = 0x09 \<or> c = 0x0A \<or> c = 0x0C \<or> c = 0x0D \<or> c = 0x22 \<or> c = 0x5C)"
        "c < 0x20 \<or> is_high_surrogate c \<or> is_low_surrogate c"
    | (raw) "\<not> (c = 0x08 \<or> c = 0x09 \<or> c = 0x0A \<or> c = 0x0C \<or> c = 0x0D \<or> c = 0x22 \<or> c = 0x5C)"
        "\<not> (c < 0x20 \<or> is_high_surrogate c \<or> is_low_surrogate c)"
    by blast
  then show ?thesis
  proof cases
    case short
    then show ?thesis
      by (auto simp: escape_def lex_escape_def unescape_def cons_lexed_def split: option.splits)
  next
    case uni
    then have "escape c = unicode_escape c" by (simp add: escape_def)
    then show ?thesis by (simp add: lex_string_unicode_escape)
  next
    case raw
    then have "escape c = [c]" by (simp add: escape_def)
    moreover have "lex_string (c # tail) = cons_lexed c (lex_string tail)"
      using raw by (intro lex_string_raw) auto
    ultimately show ?thesis by (simp del: lex_string.simps)
  qed
qed

lemma surrogate_raw:
  assumes "is_high_surrogate c \<or> is_low_surrogate c"
  shows "c \<noteq> 0x22" "c \<noteq> 0x5C" "\<not> c < 0x20"
  using assms
  by (auto simp: is_high_surrogate_def is_low_surrogate_def word_le_nat_alt word_less_nat_alt)

lemma lex_string_quote_chars: "lex_string (quote_chars s @ 0x22 # r) = Some (s, r)"
proof (induction s rule: quote_chars.induct)
  case 1
  show ?case by simp
next
  case (2 c)
  have "lex_string (escape c @ 0x22 # r) = cons_lexed c (lex_string (0x22 # r))"
    by (rule lex_string_escape)
  then show ?case by (simp add: cons_lexed_def)
next
  case (3 c d cs)
  show ?case
  proof (cases "is_high_surrogate c \<and> is_low_surrogate d")
    case True
    let ?t = "quote_chars cs @ 0x22 # r"
    have "lex_string (c # d # ?t) = cons_lexed c (lex_string (d # ?t))"
      using True by (intro lex_string_raw surrogate_raw) simp_all
    moreover have "lex_string (d # ?t) = cons_lexed d (lex_string ?t)"
      using True by (intro lex_string_raw surrogate_raw) simp_all
    moreover have "lex_string ?t = Some (cs, r)" using True "3.IH"(1) by simp
    ultimately have "lex_string (c # d # ?t) = Some (c # d # cs, r)"
      by (simp add: cons_lexed_def del: lex_string.simps)
    with True show ?thesis by (simp del: lex_string.simps)
  next
    case False
    then have q: "quote_chars (c # d # cs) = escape c @ quote_chars (d # cs)" by auto
    have "lex_string (escape c @ quote_chars (d # cs) @ 0x22 # r)
        = cons_lexed c (lex_string (quote_chars (d # cs) @ 0x22 # r))"
      by (rule lex_string_escape)
    moreover have "lex_string (quote_chars (d # cs) @ 0x22 # r) = Some (d # cs, r)"
      using False by (rule "3.IH"(2))
    ultimately show ?thesis unfolding q by (simp add: cons_lexed_def)
  qed
qed

subsection \<open>Values from tokens\<close>

fun sep_toks :: "token list list \<Rightarrow> token list" where
  "sep_toks [] = []"
| "sep_toks [x] = x"
| "sep_toks (x # y # ys) = x @ Comma # sep_toks (y # ys)"

fun toks :: "jsval \<Rightarrow> token list" where
  "toks Undefined = [TNull]"
| "toks Null = [TNull]"
| "toks (Bool b) = [if b then TTrue else TFalse]"
| "toks (Num x) = [TNum x]"
| "toks (Str s) = [TStr s]"
| "toks (Arr vs) = LBracket # sep_toks (map toks vs) @ [RBracket]"
| "toks (Obj ps) = LBrace # sep_toks (map (\<lambda>(k, v). TStr k # Colon # toks v) ps) @ [RBrace]"

fun json_value :: "jsval \<Rightarrow> bool" where
  "json_value Undefined = False"
| "json_value Null = True"
| "json_value (Bool b) = True"
| "json_value (Num n) =
     (case n of
        Finite x \<Rightarrow> of_int \<lfloor>x\<rfloor> = x \<and> \<bar>x\<bar> < 2 ^ 53
      | _ \<Rightarrow> False)"
| "json_value (Str s) = True"
| "json_value (Arr vs) = (\<forall>v \<in> set vs. json_value v)"
| "json_value (Obj ps) =
     (distinct (map fst ps) \<and> (\<forall>p \<in> set ps. array_index (fst p) = None \<and> json_value (snd p)))"

lemma toks_not_Nil: "toks v \<noteq> []"
  by (cases v) auto

lemma toks_hd: "json_value v \<Longrightarrow> hd (toks v) \<noteq> RBracket \<and> hd (toks v) \<noteq> RBrace"
  by (cases v) auto

definition parses :: "jsval \<Rightarrow> bool" where
  "parses v \<longleftrightarrow> (\<forall>ts. parse_value (toks v @ ts) = Some (v, ts))"

lemma parse_elements_toks:
  assumes "\<forall>v \<in> set vs. parses v"
  shows "parse_elements acc (concat (map (\<lambda>v. Comma # toks v) vs) @ RBracket # ts)
         = Some (Arr (acc @ vs), ts)"
  using assms
proof (induction vs arbitrary: acc)
  case Nil
  then show ?case by simp
next
  case (Cons v vs)
  then have pv: "parse_value (toks v @ concat (map (\<lambda>v. Comma # toks v) vs) @ RBracket # ts)
      = Some (v, concat (map (\<lambda>v. Comma # toks v) vs) @ RBracket # ts)"
    by (simp add: parses_def)
  have "toks v \<noteq> []" by (rule toks_not_Nil)
  then have len: "length (concat (map (\<lambda>v. Comma # toks v) vs) @ RBracket # ts)
      < length (toks v @ concat (map (\<lambda>v. Comma # toks v) vs) @ RBracket # ts)"
    by (cases "toks v") auto
  from Cons.IH [of "acc @ [v]"] Cons.prems
  have "parse_elements (acc @ [v]) (concat (map (\<lambda>v. Comma # toks v) vs) @ RBracket # ts)
      = Some (Arr (acc @ v # vs), ts)" by simp
  with pv len show ?case by simp
qed

lemma sep_toks_Cons:
  "sep_toks (x # xs) = x @ concat (map (\<lambda>y. Comma # y) xs)"
  by (induction xs arbitrary: x) auto


lemma obj_put_fresh:
  "k \<notin> fst ` set acc \<Longrightarrow> array_index k = None \<Longrightarrow> obj_put k v acc = acc @ [(k, v)]"
  by (simp add: obj_put_def)

lemma parse_members_toks:
  assumes "\<forall>p \<in> set ps. array_index (fst p) = None \<and> parses (snd p)"
    and "distinct (map fst ps)" and "fst ` set ps \<inter> fst ` set acc = {}"
  shows "parse_members acc
           (concat (map (\<lambda>(k, v). Comma # TStr k # Colon # toks v) ps) @ RBrace # ts)
         = Some (Obj (acc @ ps), ts)"
  using assms
proof (induction ps arbitrary: acc)
  case Nil
  then show ?case by simp
next
  case (Cons p ps)
  obtain k v where p: "p = (k, v)" by (cases p)
  let ?rest = "concat (map (\<lambda>(k, v). Comma # TStr k # Colon # toks v) ps) @ RBrace # ts"
  from Cons.prems p have pv: "parse_value (toks v @ ?rest) = Some (v, ?rest)"
    by (simp add: parses_def)
  have "toks v \<noteq> []" by (rule toks_not_Nil)
  then have len: "length ?rest < length (toks v @ ?rest)"
    by (cases "toks v") auto
  from Cons.prems p have fresh: "k \<notin> fst ` set acc" by auto
  from Cons.prems p have "array_index k = None" by simp
  with fresh have put: "obj_put k v acc = acc @ [(k, v)]" by (rule obj_put_fresh)
  have "parse_members (acc @ [(k, v)]) ?rest = Some (Obj ((acc @ [(k, v)]) @ ps), ts)"
  proof (rule Cons.IH)
    show "\<forall>p\<in>set ps. array_index (fst p) = None \<and> parses (snd p)" using Cons.prems by simp
    show "distinct (map fst ps)" using Cons.prems by simp
    show "fst ` set ps \<inter> fst ` set (acc @ [(k, v)]) = {}"
      using Cons.prems p by auto
  qed
  with pv len put p show ?case by simp
qed

lemma parse_value_array:
  assumes "ts \<noteq> []" and "hd ts \<noteq> RBracket"
  shows "parse_value (LBracket # ts) =
     (case parse_value ts of
        None \<Rightarrow> None
      | Some (v, ts') \<Rightarrow> if length ts' < length ts then parse_elements [v] ts' else None)"
proof -
  obtain t tl where ts: "ts = t # tl" using assms(1) by (cases ts) auto
  with assms(2) have t: "t \<noteq> RBracket" by simp
  show ?thesis unfolding ts
    by (subst parse_value.simps(2))
      (use t in \<open>cases t; simp del: parse_value.simps parse_elements.simps parse_members.simps\<close>)
qed

lemma parse_value_object:
  "parse_value (LBrace # TStr k # Colon # ts) =
     (case parse_value ts of
        None \<Rightarrow> None
      | Some (v, ts') \<Rightarrow> if length ts' < length ts then parse_members [(k, v)] ts' else None)"
  by (subst parse_value.simps(2))
    (simp del: parse_value.simps parse_elements.simps parse_members.simps)

lemma parses_json_value: "json_value v \<Longrightarrow> parses v"
proof (induction v)
  case Undefined
  then show ?case by simp
next
  case Null
  show ?case by (simp add: parses_def)
next
  case (Bool b)
  show ?case by (simp add: parses_def)
next
  case (Num x)
  show ?case by (simp add: parses_def)
next
  case (Str s)
  show ?case by (simp add: parses_def)
next
  case (Arr vs)
  show ?case
  proof (cases vs)
    case Nil
    then show ?thesis by (simp add: parses_def)
  next
    case (Cons w ws)
    have all: "\<forall>v \<in> set vs. parses v" using Arr by simp
    show ?thesis unfolding parses_def
    proof
      fix ts
      let ?rest = "concat (map (\<lambda>v. Comma # toks v) ws) @ RBracket # ts"
      have pw: "parse_value (toks w @ ?rest) = Some (w, ?rest)"
        using all Cons by (simp add: parses_def)
      have "json_value w" using Arr.prems Cons by simp
      then have hd: "hd (toks w) \<noteq> RBracket" by (simp add: toks_hd)
      have ne: "toks w \<noteq> []" by (rule toks_not_Nil)
      then have len: "length ?rest < length (toks w @ ?rest)" by (cases "toks w") auto
      have el: "parse_elements [w] ?rest = Some (Arr ([w] @ ws), ts)"
        using all Cons by (intro parse_elements_toks) simp
      have "parse_value (LBracket # (toks w @ ?rest)) =
          (case parse_value (toks w @ ?rest) of
             None \<Rightarrow> None
           | Some (v, ts') \<Rightarrow>
               if length ts' < length (toks w @ ?rest) then parse_elements [v] ts' else None)"
        using ne hd by (intro parse_value_array) simp_all
      then have "parse_value (LBracket # (toks w @ ?rest)) = Some (Arr vs, ts)"
        using len el Cons by (simp only: pw option.case prod.case if_True append.simps)
      moreover have "toks (Arr vs) @ ts = LBracket # (toks w @ ?rest)"
        using Cons by (simp add: sep_toks_Cons comp_def)
      ultimately show "parse_value (toks (Arr vs) @ ts) = Some (Arr vs, ts)" by (simp only:)
    qed
  qed
next
  case (Obj ps)
  show ?case
  proof (cases ps)
    case Nil
    then show ?thesis by (simp add: parses_def)
  next
    case (Cons q qs)
    obtain k w where q: "q = (k, w)" by (cases q)
    have all: "\<forall>p \<in> set ps. array_index (fst p) = None \<and> parses (snd p)"
    proof
      fix p assume p: "p \<in> set ps"
      obtain a b where ab: "p = (a, b)" by (cases p)
      from p Obj.prems have "json_value (snd p)" "array_index (fst p) = None" by simp_all
      with p ab show "array_index (fst p) = None \<and> parses (snd p)"
        using Obj.IH [of p b] by simp
    qed
    show ?thesis unfolding parses_def
    proof
      fix ts
      let ?rest = "concat (map (\<lambda>(k, v). Comma # TStr k # Colon # toks v) qs) @ RBrace # ts"
      have pw: "parse_value (toks w @ ?rest) = Some (w, ?rest)"
        using all Cons q by (simp add: parses_def)
      have ne: "toks w \<noteq> []" by (rule toks_not_Nil)
      then have len: "length ?rest < length (toks w @ ?rest)" by (cases "toks w") auto
      have mem: "parse_members [(k, w)] ?rest = Some (Obj ([(k, w)] @ qs), ts)"
      proof (rule parse_members_toks)
        show "\<forall>p\<in>set qs. array_index (fst p) = None \<and> parses (snd p)" using all Cons by simp
        show "distinct (map fst qs)" using Obj.prems Cons by simp
        show "fst ` set qs \<inter> fst ` set [(k, w)] = {}" using Obj.prems Cons q by auto
      qed
      have "parse_value (LBrace # TStr k # Colon # (toks w @ ?rest)) = Some (Obj ps, ts)"
        using len mem Cons q
        by (simp only: parse_value_object pw option.case prod.case if_True append.simps)
      moreover have "toks (Obj ps) @ ts = LBrace # TStr k # Colon # (toks w @ ?rest)"
      proof -
        have "(\<lambda>y. Comma # y) \<circ> (\<lambda>(k, v). TStr k # Colon # toks v)
            = (\<lambda>(k, v). Comma # TStr k # Colon # toks v)"
          by (auto simp: fun_eq_iff)
        then show ?thesis using Cons q by (simp add: sep_toks_Cons)
      qed
      ultimately show "parse_value (toks (Obj ps) @ ts) = Some (Obj ps, ts)" by (simp only:)
    qed
  qed
qed

subsection \<open>Tokens of a serialized value\<close>

definition value_end :: "jsstring \<Rightarrow> bool" where
  "value_end r \<longleftrightarrow> (case r of [] \<Rightarrow> True | c # _ \<Rightarrow> c = 0x2C \<or> c = 0x5D \<or> c = 0x7D)"

lemma value_end_number_end: "value_end r \<Longrightarrow> number_end r"
  by (auto simp: value_end_def number_end_def is_digit_def split: list.splits)

lemma value_end_simps [simp]:
  "value_end []" "value_end (0x2C # r)" "value_end (0x5D # r)" "value_end (0x7D # r)"
  by (simp_all add: value_end_def)

definition prepend :: "token list \<Rightarrow> token list option \<Rightarrow> token list option" where
  "prepend ts r = (case r of None \<Rightarrow> None | Some us \<Rightarrow> Some (ts @ us))"

lemma prepend_Nil: "prepend [] r = r"
  by (simp add: prepend_def split: option.splits)

lemma prepend_prepend: "prepend a (prepend b r) = prepend (a @ b) r"
  by (simp add: prepend_def split: option.splits)

lemma prepend_Some: "prepend ts (Some us) = Some (ts @ us)"
  by (simp add: prepend_def)

lemma map_option_Cons: "map_option (Cons t) r = prepend [t] r"
  by (simp add: prepend_def split: option.splits)

definition lexes :: "jsstring \<Rightarrow> token list \<Rightarrow> bool" where
  "lexes x ts \<longleftrightarrow> (\<forall>r. value_end r \<longrightarrow> tokenize (x @ r) = prepend ts (tokenize r))"

lemma lex_punct:
  "tokenize (0x7B # r) = prepend [LBrace] (tokenize r)"
  "tokenize (0x7D # r) = prepend [RBrace] (tokenize r)"
  "tokenize (0x5B # r) = prepend [LBracket] (tokenize r)"
  "tokenize (0x5D # r) = prepend [RBracket] (tokenize r)"
  "tokenize (0x3A # r) = prepend [Colon] (tokenize r)"
  "tokenize (0x2C # r) = prepend [Comma] (tokenize r)"
  by (simp_all add: is_ws_def map_option_Cons)

lemma lex_keyword:
  "tokenize (js ''null'' @ r) = prepend [TNull] (tokenize r)"
  "tokenize (js ''true'' @ r) = prepend [TTrue] (tokenize r)"
  "tokenize (js ''false'' @ r) = prepend [TFalse] (tokenize r)"
  by (simp_all add: js_def is_ws_def is_digit_def map_option_Cons)

lemma lex_quote: "tokenize (quote s @ r) = prepend [TStr s] (tokenize r)"
  by (simp add: quote_def is_ws_def lex_string_quote_chars map_option_Cons)

lemma is_digit_not_punct:
  assumes "c = 0x2D \<or> is_digit c"
  shows "\<not> is_ws c" "c \<noteq> 0x7B" "c \<noteq> 0x7D" "c \<noteq> 0x5B" "c \<noteq> 0x5D" "c \<noteq> 0x3A" "c \<noteq> 0x2C"
    "c \<noteq> 0x22"
  using assms by (auto simp: is_digit_def is_ws_def word_le_nat_alt)

lemma lex_show_int:
  assumes "number_end r"
  shows "tokenize (show_int i @ r) = prepend [TNum (Number_value (of_int i))] (tokenize r)"
proof -
  obtain c cs where s: "show_int i = c # cs"
    using show_nat_not_Nil by (cases "show_int i") (auto simp: show_int_def split: if_splits)
  have c: "c = 0x2D \<or> is_digit c"
  proof (cases "i < 0")
    case True
    with s show ?thesis by (simp add: show_int_def)
  next
    case False
    with s have "c \<in> set (show_nat (nat i))" by (simp add: show_int_def)
    then show ?thesis by (simp add: show_nat_digits)
  qed
  have n: "lex_number (c # cs @ r) = Some (of_int i, r)"
    using lex_number_show_int [OF assms, of i] s by simp
  have "tokenize (c # cs @ r) = prepend [TNum (Number_value (of_int i))] (tokenize r)"
    using c n by (subst tokenize.simps) (simp add: is_digit_not_punct [OF c] map_option_Cons)
  then show ?thesis using s by simp
qed

lemma lexes_commas:
  assumes "list_all2 lexes xs tss"
  shows "lexes (commas xs) (sep_toks tss)"
  using assms
proof (induction xs tss rule: list_all2_induct)
  case Nil
  show ?case by (simp add: lexes_def prepend_Nil)
next
  case (Cons x xs ts tss)
  show ?case
  proof (cases xs)
    case Nil
    with Cons show ?thesis by simp
  next
    case xs: (Cons y ys)
    with Cons.hyps obtain us uss where tss: "tss = us # uss" by (cases tss) auto
    show ?thesis unfolding lexes_def
    proof (intro allI impI)
      fix r assume r: "value_end r"
      have "tokenize (x @ 0x2C # commas xs @ r) = prepend ts (tokenize (0x2C # commas xs @ r))"
        using Cons.hyps(1) by (simp add: lexes_def del: tokenize.simps)
      also have "tokenize (0x2C # commas xs @ r) = prepend [Comma] (tokenize (commas xs @ r))"
        by (rule lex_punct)
      also have "tokenize (commas xs @ r) = prepend (sep_toks tss) (tokenize r)"
        using Cons.IH r by (simp add: lexes_def)
      finally have "tokenize (x @ 0x2C # commas xs @ r)
          = prepend (ts @ Comma # sep_toks tss) (tokenize r)"
        by (simp add: prepend_prepend)
      then show "tokenize (commas (x # xs) @ r) = prepend (sep_toks (ts # tss)) (tokenize r)"
        using xs tss by simp
    qed
  qed
qed

lemma lexes_json_value: "json_value v \<Longrightarrow> lexes (JSON_stringify f v) (toks v)"
proof (induction v)
  case Undefined
  then show ?case by simp
next
  case Null
  show ?case by (simp add: lexes_def lex_keyword)
next
  case (Bool b)
  show ?case by (simp add: lexes_def lex_keyword)
next
  case (Num n)
  then obtain x where n: "n = Finite x" and fl: "of_int \<lfloor>x\<rfloor> = x" and small: "\<bar>x\<bar> < 2 ^ 53"
    by (cases n) auto
  from n fl small have sn: "show_number f n = show_int \<lfloor>x\<rfloor>" by (simp add: show_number_def)
  from fl small have "\<bar>\<lfloor>x\<rfloor>\<bar> < 2 ^ 53" by (rule safe_integer_floor)
  then have "Number_value (of_int \<lfloor>x\<rfloor>) = Finite (of_int \<lfloor>x\<rfloor>)"
    by (rule Number_value_safe_integer)
  then have nv: "Number_value (of_int \<lfloor>x\<rfloor>) = n" by (simp only: fl n)
  show ?case unfolding lexes_def
  proof (intro allI impI)
    fix r assume "value_end r"
    then have "number_end r" by (rule value_end_number_end)
    then have "tokenize (show_int \<lfloor>x\<rfloor> @ r)
        = prepend [TNum (Number_value (of_int \<lfloor>x\<rfloor>))] (tokenize r)"
      by (rule lex_show_int)
    then have "tokenize (show_int \<lfloor>x\<rfloor> @ r) = prepend [TNum n] (tokenize r)"
      by (simp only: nv)
    then show "tokenize (JSON_stringify f (Num n) @ r) = prepend (toks (Num n)) (tokenize r)"
      by (simp add: sn)
  qed
next
  case (Str s)
  show ?case by (simp add: lexes_def lex_quote)
next
  case (Arr vs)
  have "list_all2 lexes (map (JSON_stringify f) vs) (map toks vs)"
    using Arr by (simp add: list_all2_map1 list_all2_map2 list_all2_same)
  then have c: "lexes (commas (map (JSON_stringify f) vs)) (sep_toks (map toks vs))"
    by (rule lexes_commas)
  show ?case unfolding lexes_def
  proof (intro allI impI)
    fix r assume "value_end r"
    have "tokenize (commas (map (JSON_stringify f) vs) @ 0x5D # r)
        = prepend (sep_toks (map toks vs)) (tokenize (0x5D # r))"
      using c by (simp add: lexes_def del: tokenize.simps)
    then have "tokenize (0x5B # commas (map (JSON_stringify f) vs) @ 0x5D # r)
        = prepend [LBracket] (prepend (sep_toks (map toks vs)) (prepend [RBracket] (tokenize r)))"
      by (simp only: lex_punct)
    then show "tokenize (JSON_stringify f (Arr vs) @ r) = prepend (toks (Arr vs)) (tokenize r)"
      by (simp add: prepend_prepend del: tokenize.simps)
  qed
next
  case (Obj ps)
  have "v \<noteq> Undefined" if "(k, v) \<in> set ps" for k v
  proof
    assume "v = Undefined"
    with that Obj.prems show False by auto
  qed
  then have nf: "filter (\<lambda>(k, v). v \<noteq> Undefined) ps = ps"
    by (auto simp: filter_id_conv)
  have m: "lexes (quote k @ [0x3A] @ JSON_stringify f v) (TStr k # Colon # toks v)"
    if "(k, v) \<in> set ps" for k v
  proof -
    from that Obj.prems have "json_value v" by auto
    with that Obj.IH [of "(k, v)" v] have "lexes (JSON_stringify f v) (toks v)" by simp
    then show ?thesis
      by (simp add: lexes_def lex_quote lex_punct prepend_prepend del: tokenize.simps)
  qed
  let ?xs = "map (\<lambda>(k, v). quote k @ [0x3A] @ JSON_stringify f v) ps"
  let ?tss = "map (\<lambda>(k, v). TStr k # Colon # toks v) ps"
  have "list_all2 lexes ?xs ?tss"
    using m by (auto simp: list_all2_map1 list_all2_map2 list_all2_same)
  then have c: "lexes (commas ?xs) (sep_toks ?tss)"
    by (rule lexes_commas)
  show ?case unfolding lexes_def
  proof (intro allI impI)
    fix r assume "value_end r"
    have "tokenize (commas ?xs @ 0x7D # r) = prepend (sep_toks ?tss) (tokenize (0x7D # r))"
      using c by (simp add: lexes_def del: tokenize.simps)
    then have "tokenize (0x7B # commas ?xs @ 0x7D # r)
        = prepend [LBrace] (prepend (sep_toks ?tss) (prepend [RBrace] (tokenize r)))"
      by (simp only: lex_punct)
    then show "tokenize (JSON_stringify f (Obj ps) @ r) = prepend (toks (Obj ps)) (tokenize r)"
      by (simp add: nf prepend_prepend del: tokenize.simps)
  qed
qed

lemma JSON_parse_stringify: "json_value v \<Longrightarrow> JSON_parse (JSON_stringify f v) = Inr v"
proof -
  assume v: "json_value v"
  have "value_end []" by simp
  then have "tokenize (JSON_stringify f v @ []) = prepend (toks v) (tokenize [])"
    using lexes_json_value [OF v] unfolding lexes_def by blast
  then have "tokenize (JSON_stringify f v) = Some (toks v)" by (simp add: prepend_Some)
  moreover have "parse_value (toks v @ []) = Some (v, [])"
    using parses_json_value [OF v] unfolding parses_def by blast
  ultimately show ?thesis by (simp add: JSON_parse_def)
qed

section \<open>What is asked of the curve library\<close>

text \<open>
  \<open>xOnlyPointAddTweak\<close> of tiny-secp256k1 validates its arguments before it adds: it throws
  \<open>Expected Point\<close> for a first argument that is not the 32-byte x coordinate of a point
  of the curve, then \<open>Expected Tweak\<close> for a second argument that is not a 32-byte scalar
  below the order of the group. Its result, when there is one, has a 32-byte key. The two
  predicates say as much of a function that stands for it; \<open>isXOnlyPoint\<close> is the test of
  the library for its first argument.
\<close>

definition xOnlyPointAddTweak_sizes :: "ecc_add \<Rightarrow> bool" where
  "xOnlyPointAddTweak_sizes f \<longleftrightarrow>
     (\<forall>p t r. f p t = Inr (Some r) \<longrightarrow>
        length p = 32 \<and> length t = 32 \<and> length (xOnlyPubkey r) = 32)"



section \<open>Sample data\<close>

text \<open>
  Values for the examples. The network parameters are those of bitcoinjs-lib that the
  address decoder reads. \<open>G_x\<close> and \<open>G2_x\<close> are the x coordinates of the generator \<open>G\<close> of
  secp256k1 and of \<open>2G\<close>; \<open>order_minus_one\<close> is \<open>n - 1\<close> for the order \<open>n\<close> of the group,
  so that \<open>G + (n - 1) G\<close> is the point at infinity. The address is the pay-to-witness-
  public-key-hash test vector of BIP 173 for the test network, with its output script.

  \<open>sample_xOnlyPointAddTweak\<close> and \<open>sample_toOutputScript\<close> are functions of the types of
  the two libraries. They answer as the libraries do on the arguments listed here, and on
  arguments of a wrong length; everything else they refuse as not listed, which the
  libraries do not.
\<close>

record Network =
  bech32 :: string
  pubKeyHash :: nat
  scriptHash :: nat

definition testnet :: Network where
  "testnet = \<lparr>bech32 = ''tb'', pubKeyHash = 0x6F, scriptHash = 0xC4\<rparr>"

definition bitcoin :: Network where
  "bitcoin = \<lparr>bech32 = ''bc'', pubKeyHash = 0x00, scriptHash = 0x05\<rparr>"

definition G_x :: buffer where
  "G_x = [0x79, 0xBE, 0x66, 0x7E, 0xF9, 0xDC, 0xBB, 0xAC, 0x55, 0xA0, 0x62, 0x95, 0xCE, 0x87, 0x0B, 0x07,
          0x02, 0x9B, 0xFC, 0xDB, 0x2D, 0xCE, 0x28, 0xD9, 0x59, 0xF2, 0x81, 0x5B, 0x16, 0xF8, 0x17, 0x98]"

definition G2_x :: buffer where
  "G2_x = [0xC6, 0x04, 0x7F, 0x94, 0x41, 0xED, 0x7D, 0x6D, 0x30, 0x45, 0x40, 0x6E, 0x95, 0xC0, 0x7C, 0xD8,
           0x5C, 0x77, 0x8E, 0x4B, 0x8C, 0xEF, 0x3C, 0xA7, 0xAB, 0xAC, 0x09, 0xB9, 0x5C, 0x70, 0x9E, 0xE5]"

definition scalar_one :: buffer where
  "scalar_one =
     [0x00, 0x00, 0x00, 0x00, 0x00, 0x00, 0x00, 0x00, 0x00, 0x00, 0x00, 0x00, 0x00, 0x00, 0x00, 0x00,
      0x00, 0x00, 0x00, 0x00, 0x00, 0x00, 0x00, 0x00, 0x00, 0x00, 0x00, 0x00, 0x00, 0x00, 0x00, 0x01]"

definition order_minus_one :: buffer where
  "order_minus_one =
     [0xFF, 0xFF, 0xFF, 0xFF, 0xFF, 0xFF, 0xFF, 0xFF, 0xFF, 0xFF, 0xFF, 0xFF, 0xFF, 0xFF, 0xFF, 0xFE,
      0xBA, 0xAE, 0xDC, 0xE6, 0xAF, 0x48, 0xA0, 0x3B, 0xBF, 0xD2, 0x5E, 0x8C, 0xD0, 0x36, 0x41, 0x40]"

definition sample_xOnlyPointAddTweak :: ecc_add where
  "sample_xOnlyPointAddTweak p t =
     (if length p \<noteq> 32 then Inl (Error ''Expected Point'')
      else if length t \<noteq> 32 then Inl (Error ''Expected Tweak'')
      else if p = G_x \<and> t = scalar_one then Inr (Some \<lparr>parity = 0, xOnlyPubkey = G2_x\<rparr>)
      else if p = G_x \<and> t = order_minus_one then Inr None
      else Inl (Error ''not in the table''))"

definition p2wpkh_script :: buffer where
  "p2wpkh_script =
     [0x00, 0x14, 0x75, 0x1E, 0x76, 0xE8, 0x19, 0x91, 0x96, 0xD4, 0x54, 0x94, 0x1C, 0x45,
      0xD1, 0xB3, 0xA3, 0x23, 0xF1, 0x43, 0x3B, 0xD6]"

definition testnet_address :: jsstring where
  "testnet_address = js ''tb1qw508d6qejxtdg4y5r3zarvary0c5xw7kxpjzsx''"

definition sample_toOutputScript :: "Network address_decoder" where
  "sample_toOutputScript a network =
     (if a = Str testnet_address then
        (if bech32 network = ''tb'' then Inr p2wpkh_script
         else Inl (Error ''tb1qw508d6qejxtdg4y5r3zarvary0c5xw7kxpjzsx has an invalid prefix''))
      else if a = Str [] then Inl (Error '' has no matching Script'')
      else Inl (Error ''not in the table''))"

definition sample_Buffer_from_object :: "jsval \<Rightarrow> error + buffer" where
  "sample_Buffer_from_object x = Inl TypeError"

definition sample_coin :: Coin where
  "sample_coin =
     \<lparr>txid = Str (replicate 64 0x61), vout = Num (Finite 0), value = Num (Finite 100000),
      address = Str testnet_address,
      status = Obj [(js ''isConfirmed'', Bool False)], tweak = Undefined, others = [],
      proto = None\<rparr>"

definition tweak_one :: jsstring where
  "tweak_one = js ''0000000000000000000000000000000000000000000000000000000000000001''"

definition tweak_order_minus_one :: jsstring where
  "tweak_order_minus_one = js ''fffffffffffffffffffffffffffffffebaaedce6af48a03bbfd25e8cd0364140''"

definition confirmed_coin :: Coin where
  "confirmed_coin =
     \<lparr>txid = Str (replicate 64 0x62), vout = Num (Finite 1),
      value = Num (Finite 2100000000000000), address = Str testnet_address,
      status = Obj [(js ''isConfirmed'', Bool True), (js ''blockHeight'', Num (Finite 800000)),
                    (js ''blockHash'', Str (replicate 64 0x30)),
                    (js ''blockTime'', Num (Finite 1700000000))],
      tweak = Str tweak_one, others = [], proto = None\<rparr>"

lemma length_G_x: "length G_x = 32"
  by (simp add: G_x_def)

lemma length_G2_x: "length G2_x = 32"
  by (simp add: G2_x_def)

lemma length_scalar_one: "length scalar_one = 32"
  by (simp add: scalar_one_def)

lemma length_order_minus_one: "length order_minus_one = 32"
  by (simp add: order_minus_one_def)

lemma hex_decode_tweak_one: "hex_decode tweak_one = scalar_one"
  by (simp add: tweak_one_def js_def scalar_one_def hex_val_def is_digit_def)

lemma hex_decode_tweak_order_minus_one: "hex_decode tweak_order_minus_one = order_minus_one"
  by (simp add: tweak_order_minus_one_def js_def order_minus_one_def hex_val_def is_digit_def)

lemma scalar_one_neq: "scalar_one \<noteq> order_minus_one"
  by (simp add: scalar_one_def order_minus_one_def)


lemma sample_add_one:
  "sample_xOnlyPointAddTweak G_x scalar_one = Inr (Some \<lparr>parity = 0, xOnlyPubkey = G2_x\<rparr>)"
  by (simp add: sample_xOnlyPointAddTweak_def length_G_x length_scalar_one)

lemma sample_add_order_minus_one: "sample_xOnlyPointAddTweak G_x order_minus_one = Inr None"
  using scalar_one_neq
  by (simp add: sample_xOnlyPointAddTweak_def length_G_x length_order_minus_one)

lemma sample_add_empty: "sample_xOnlyPointAddTweak G_x [] = Inl (Error ''Expected Tweak'')"
  by (simp add: sample_xOnlyPointAddTweak_def length_G_x)

lemma sample_sizes: "xOnlyPointAddTweak_sizes sample_xOnlyPointAddTweak"
  unfolding xOnlyPointAddTweak_sizes_def
  by (auto simp: sample_xOnlyPointAddTweak_def length_G2_x split: if_splits)


lemma x_only_parity:
  assumes "length x = 32" and "b = 0x02 \<or> b = 0x03"
  shows "x_only (b # x) = x"
  using assms by (auto simp: x_only_def subarray_def)

lemma x_only_other_length: "length k \<noteq> 33 \<Longrightarrow> x_only k = k"
  by (simp add: x_only_def)

lemma x_only_G_x: "x_only (0x02 # G_x) = G_x" "x_only (0x03 # G_x) = G_x" "x_only G_x = G_x"
  by (simp_all add: x_only_parity x_only_other_length length_G_x)

lemma sample_decodes_testnet:
  "sample_toOutputScript (Str testnet_address) testnet = Inr p2wpkh_script"
  by (simp add: sample_toOutputScript_def testnet_def)

lemma sample_decodes_bitcoin:
  "sample_toOutputScript (Str testnet_address) bitcoin =
     Inl (Error ''tb1qw508d6qejxtdg4y5r3zarvary0c5xw7kxpjzsx has an invalid prefix'')"
  by (simp add: sample_toOutputScript_def bitcoin_def)

lemma tweak_one_not_Nil: "tweak_one \<noteq> []"
  by (simp add: tweak_one_def js_def)

lemma tweak_order_minus_one_not_Nil: "tweak_order_minus_one \<noteq> []"
  by (simp add: tweak_order_minus_one_def js_def)


section \<open>Properties of the codec\<close>

definition is_integer :: "jsval \<Rightarrow> bool" where
  "is_integer v =
     (case v of
        Num (Finite x) \<Rightarrow> of_int \<lfloor>x\<rfloor> = x \<and> \<bar>x\<bar> < 2 ^ 53
      | _ \<Rightarrow> False)"

definition is_string :: "jsval \<Rightarrow> bool" where
  "is_string v = (case v of Str s \<Rightarrow> True | _ \<Rightarrow> False)"

definition is_boolean :: "jsval \<Rightarrow> bool" where
  "is_boolean v = (case v of Bool b \<Rightarrow> True | _ \<Rightarrow> False)"

definition status_member :: "jsstring \<times> jsval \<Rightarrow> bool" where
  "status_member p =
     (case p of
        (k, v) \<Rightarrow>
          (k = js ''isConfirmed'' \<and> is_boolean v) \<or>
          (k = js ''blockHeight'' \<and> is_integer v) \<or>
          (k = js ''blockHash'' \<and> is_string v) \<or>
          (k = js ''blockTime'' \<and> is_integer v))"

definition valid_status :: "jsval \<Rightarrow> bool" where
  "valid_status v =
     (case v of
        Obj ps \<Rightarrow>
          distinct (map fst ps) \<and> list_all status_member ps \<and> js ''isConfirmed'' \<in> fst ` set ps
      | _ \<Rightarrow> False)"

definition valid_coin :: "Coin \<Rightarrow> bool" where
  "valid_coin c \<longleftrightarrow>
     is_string (txid c) \<and> is_integer (vout c) \<and> is_integer (Coin.value c) \<and> is_string (address c) \<and>
     valid_status (status c) \<and> (tweak c = Undefined \<or> is_string (tweak c)) \<and>
     others c = [] \<and> proto c = None"

definition serializable :: "jsval \<Rightarrow> bool" where
  "serializable v \<longleftrightarrow> v = Undefined \<or> json_value v"

lemma is_string_json_value: "is_string v \<Longrightarrow> json_value v"
  by (cases v) (simp_all add: is_string_def)

lemma is_integer_json_value: "is_integer v \<Longrightarrow> json_value v"
  by (auto simp: is_integer_def split: jsval.splits number.splits)

lemma is_boolean_json_value: "is_boolean v \<Longrightarrow> json_value v"
  by (cases v) (simp_all add: is_boolean_def)

lemma status_member_json_value: "status_member p \<Longrightarrow> json_value (snd p)"
  by (cases p)
    (auto simp: status_member_def is_string_json_value is_integer_json_value is_boolean_json_value)

lemma status_member_not_index: "status_member p \<Longrightarrow> array_index (fst p) = None"
  by (cases p) (auto simp: status_member_def array_index_def js_def is_digit_def)

lemma valid_status_json_value: "valid_status v \<Longrightarrow> json_value v"
  by (cases v)
    (auto simp: valid_status_def list_all_iff status_member_json_value
      dest: status_member_not_index)

lemma set_property_fields:
  "set_property r (js ''txid'', v) = r\<lparr>txid := v\<rparr>"
  "set_property r (js ''vout'', v) = r\<lparr>vout := v\<rparr>"
  "set_property r (js ''value'', v) = r\<lparr>Coin.value := v\<rparr>"
  "set_property r (js ''address'', v) = r\<lparr>address := v\<rparr>"
  "set_property r (js ''status'', v) = r\<lparr>status := v\<rparr>"
  "set_property r (js ''tweak'', v) = r\<lparr>tweak := v\<rparr>"
  by (simp_all add: set_property_def js_def)

definition own_fields :: "Coin \<Rightarrow> (jsstring \<times> jsval) list" where
  "own_fields c =
     [(js ''txid'', txid c), (js ''vout'', vout c), (js ''value'', Coin.value c),
      (js ''address'', address c), (js ''status'', status c), (js ''tweak'', tweak c)]"

lemma distinct_fields: "distinct (map fst (own_fields c))"
  by (simp add: own_fields_def js_def)

lemma own_fields_not_index: "p \<in> set (own_fields c) \<Longrightarrow> array_index (fst p) = None"
  by (auto simp: own_fields_def array_index_def js_def is_digit_def)

lemma new_Coin_fields:
  "others c = [] \<Longrightarrow> proto c = None \<Longrightarrow>
   new_Coin (Obj (filter (\<lambda>(k, v). v \<noteq> Undefined) (own_fields c))) = c"
  by (cases c) (simp add: new_Coin_def Object_assign_def own_fields_def set_property_fields)

lemma JSON_stringify_filter:
  "JSON_stringify f (Obj (filter (\<lambda>(k, v). v \<noteq> Undefined) ps)) = JSON_stringify f (Obj ps)"
  by simp

lemma fromJSON_toJSON_serializable:
  assumes "serializable (txid c)" "serializable (vout c)" "serializable (Coin.value c)"
    "serializable (address c)" "serializable (status c)" "serializable (tweak c)"
    and none: "others c = []" and unchanged: "proto c = None"
  shows "fromJSON (toJSON f c) = Inr c"
proof -
  let ?fs = "filter (\<lambda>(k, v). v \<noteq> Undefined) (own_fields c)"
  have "distinct (map fst ?fs)" using distinct_fields [of c] by (rule distinct_map_filter)
  moreover have "\<forall>p \<in> set ?fs. json_value (snd p)"
    using assms by (auto simp: own_fields_def serializable_def)
  moreover have "\<forall>p \<in> set ?fs. array_index (fst p) = None"
    using own_fields_not_index [of _ c] by auto
  ultimately have "json_value (Obj ?fs)" by auto
  then have "JSON_parse (JSON_stringify f (Obj ?fs)) = Inr (Obj ?fs)"
    by (rule JSON_parse_stringify)
  moreover have "toJSON f c = JSON_stringify f (Obj ?fs)"
    unfolding toJSON_def own_fields_def [symmetric] by (simp only: JSON_stringify_filter)
  ultimately show ?thesis by (simp add: fromJSON_def new_Coin_fields [OF none unchanged])
qed

text \<open>
  Claim C1. For every valid coin record \<open>c\<close>, reading back what \<open>toJSON\<close> wrote gives \<open>c\<close>
  again, field for field: the status with its members, and a tweak that is absent stays
  absent. A valid coin has the declared types in its fields; its numbers are integers of
  magnitude below \<open>2^53\<close>, the integers that a double counts one by one (an amount or an
  index beyond that is not a number of satoshis, outputs, blocks or seconds). The theorem
  holds whatever the runtime prints for the other numbers.
\<close>

theorem fromJSON_toJSON:
  assumes "valid_coin c"
  shows "fromJSON (toJSON f c) = Inr c"
proof (rule fromJSON_toJSON_serializable)
  show "serializable (txid c)" using assms
    by (simp add: valid_coin_def serializable_def is_string_json_value)
  show "serializable (vout c)" using assms
    by (simp add: valid_coin_def serializable_def is_integer_json_value)
  show "serializable (Coin.value c)" using assms
    by (simp add: valid_coin_def serializable_def is_integer_json_value)
  show "serializable (address c)" using assms
    by (simp add: valid_coin_def serializable_def is_string_json_value)
  show "serializable (status c)" using assms
    by (simp add: valid_coin_def serializable_def valid_status_json_value)
  show "serializable (tweak c)" using assms
    by (auto simp: valid_coin_def serializable_def is_string_json_value)
  show "others c = []" using assms by (simp add: valid_coin_def)
  show "proto c = None" using assms by (simp add: valid_coin_def)
qed

lemma is_integer_safe: "\<bar>i\<bar> < 2 ^ 53 \<Longrightarrow> is_integer (Num (Finite (of_int i)))"
proof -
  assume a: "\<bar>i\<bar> < 2 ^ 53"
  have "(of_int \<bar>i\<bar> :: rat) < of_int (2 ^ 53)" using a by (simp only: of_int_less_iff)
  then have "\<bar>of_int i :: rat\<bar> < 2 ^ 53" by simp
  then show ?thesis by (simp add: is_integer_def)
qed

lemma valid_sample_coin: "valid_coin sample_coin"
proof -
  have "is_integer (Num (Finite (of_int 0)))" by (rule is_integer_safe) simp
  moreover have "is_integer (Num (Finite (of_int 100000)))" by (rule is_integer_safe) simp
  ultimately show ?thesis
    by (simp add: valid_coin_def sample_coin_def is_string_def valid_status_def status_member_def
        is_boolean_def js_def)
qed

lemma valid_confirmed_coin: "valid_coin confirmed_coin"
proof -
  have "is_integer (Num (Finite (of_int 1)))" by (rule is_integer_safe) simp
  moreover have "is_integer (Num (Finite (of_int 2100000000000000)))"
    by (rule is_integer_safe) simp
  moreover have "is_integer (Num (Finite (of_int 800000)))" by (rule is_integer_safe) simp
  moreover have "is_integer (Num (Finite (of_int 1700000000)))" by (rule is_integer_safe) simp
  ultimately show ?thesis
    by (simp add: valid_coin_def confirmed_coin_def is_string_def valid_status_def
        status_member_def is_boolean_def js_def)
qed

lemma toJSON_sample_coin:
  \<open>toJSON f (sample_coin\<lparr>txid := Str (js ''ab'')\<rparr>) =
     js ''{"txid":"ab","vout":0,"value":100000,"address":"tb1qw508d6qejxtdg4y5r3zarvary0c5xw7kxpjzsx","status":{"isConfirmed":false}}''\<close>
  by (simp add: toJSON_def sample_coin_def show_number_def show_int_def show_nat.simps
      digit_char_def quote_def escape_def is_high_surrogate_def is_low_surrogate_def
      testnet_address_def js_def)

theorem fromJSON_toJSON_witness:
  "valid_coin sample_coin \<and> fromJSON (toJSON (\<lambda>x. []) sample_coin) = Inr sample_coin
   \<and> valid_coin confirmed_coin
   \<and> fromJSON (toJSON (\<lambda>x. []) confirmed_coin) = Inr confirmed_coin"
  using fromJSON_toJSON [OF valid_sample_coin, of "\<lambda>x. []"] valid_sample_coin
    fromJSON_toJSON [OF valid_confirmed_coin, of "\<lambda>x. []"] valid_confirmed_coin
  by simp

lemma JSON_parse_error: "JSON_parse text = Inl e \<Longrightarrow> e = SyntaxError"
  by (auto simp: JSON_parse_def split: option.splits prod.splits list.splits)

text \<open>
  Claim C8, as amended. For every text, \<open>fromJSON\<close> fails exactly when \<open>JSON.parse\<close> does,
  that is when the text is not well-formed, and it fails with the \<open>SyntaxError\<close> of
  \<open>JSON.parse\<close>. For every well-formed text it returns a coin, the one that the
  constructor makes of the parsed value, whether or not the required fields are in the
  text.
\<close>

theorem fromJSON_fails_iff:
  "(fromJSON text = Inl SyntaxError \<longleftrightarrow> JSON_parse text = Inl SyntaxError) \<and>
   ((\<exists>c. fromJSON text = Inr c) \<longleftrightarrow> (\<exists>v. JSON_parse text = Inr v)) \<and>
   (fromJSON text = Inl SyntaxError \<or> (\<exists>v. JSON_parse text = Inr v \<and> fromJSON text = Inr (new_Coin v)))"
proof (cases "JSON_parse text")
  case (Inl e)
  then have "e = SyntaxError" by (rule JSON_parse_error)
  with Inl show ?thesis by (simp add: fromJSON_def)
next
  case (Inr v)
  then show ?thesis by (simp add: fromJSON_def)
qed

text \<open>The claim as it was stated fails for the text \<open>{}\<close>: it is well-formed, none of the
  required fields is in it, and \<open>fromJSON\<close> returns a coin.\<close>

theorem fromJSON_empty_object_counterexample:
  "JSON_parse (js ''{}'') = Inr (Obj []) \<and>
   fromJSON (js ''{}'') =
     Inr \<lparr>txid = Undefined, vout = Undefined, value = Undefined, address = Undefined,
          status = Undefined, tweak = Undefined, others = [], proto = None\<rparr>"
  by (simp add: fromJSON_def JSON_parse_def js_def is_ws_def new_Coin_def Object_assign_def)

section \<open>Properties of the input builder\<close>

subsection \<open>The taproot path\<close>

text \<open>
  Claim C2. For every coin whose tweak is present and for which the x-only tweak
  addition succeeds, \<open>toInput\<close> returns a descriptor whose witness script is exactly 34
  bytes, namely \<open>0x51\<close>, \<open>0x20\<close> and the 32-byte tweaked key, whose outpoint is
  \<open>(txid, vout)\<close> of the coin, whose witness-UTXO value is the value of the coin, and whose
  internal key is the untweaked 32-byte x-only spend key. That the addition succeeds on
  32-byte arguments only and returns a 32-byte key is what the curve library promises.
\<close>

theorem toInput_taproot:
  assumes sizes: "xOnlyPointAddTweak_sizes xOnlyPointAddTweak"
    and tw: "tweak c = Str tw"
    and ok: "xOnlyPointAddTweak (x_only spendPubBuffer) (hex_decode tw) = Inr (Some r)"
  shows "toInput Buffer_from_object xOnlyPointAddTweak toOutputScript c network spendPubBuffer =
           Inr \<lparr>hash = txid c, index = vout c,
                witnessUtxo = \<lparr>script = 0x51 # 0x20 # xOnlyPubkey r, value = Coin.value c\<rparr>,
                tapInternalKey = Some (x_only spendPubBuffer)\<rparr>
         \<and> length (0x51 # 0x20 # xOnlyPubkey r) = 34
         \<and> length (xOnlyPubkey r) = 32
         \<and> length (x_only spendPubBuffer) = 32"
proof -
  from sizes ok have len: "length (x_only spendPubBuffer) = 32" "length (hex_decode tw) = 32"
    "length (xOnlyPubkey r) = 32"
    unfolding xOnlyPointAddTweak_sizes_def by blast+
  from len(2) have "tw \<noteq> []" by auto
  with tw ok len show ?thesis
    by (simp add: toInput_def Buffer_from_hex_def)
qed

theorem toInput_taproot_witness:
  "xOnlyPointAddTweak_sizes sample_xOnlyPointAddTweak \<and>
   toInput sample_Buffer_from_object sample_xOnlyPointAddTweak sample_toOutputScript
      (sample_coin\<lparr>tweak := Str tweak_one\<rparr>) testnet (0x02 # G_x) =
     Inr \<lparr>hash = Str (replicate 64 0x61), index = Num (Finite 0),
          witnessUtxo = \<lparr>script = 0x51 # 0x20 # G2_x, value = Num (Finite 100000)\<rparr>,
          tapInternalKey = Some G_x\<rparr> \<and>
   length (0x51 # 0x20 # G2_x) = 34"
proof -
  have ok: "sample_xOnlyPointAddTweak (x_only (0x02 # G_x)) (hex_decode tweak_one) =
      Inr (Some \<lparr>parity = 0, xOnlyPubkey = G2_x\<rparr>)"
    by (simp only: x_only_G_x hex_decode_tweak_one sample_add_one)
  have tw: "tweak (sample_coin\<lparr>tweak := Str tweak_one\<rparr>) = Str tweak_one" by simp
  from toInput_taproot [OF sample_sizes tw ok,
      of sample_Buffer_from_object sample_toOutputScript testnet]
  show ?thesis by (simp add: sample_sizes x_only_G_x sample_coin_def)
qed

subsection \<open>The standard path\<close>

text \<open>
  Claim C3. For every coin with no tweak and an address that the decoder accepts for the
  given network, \<open>toInput\<close> returns a descriptor with the outpoint \<open>(txid, vout)\<close> of the
  coin and a witness-UTXO record whose script is the output script that the decoder gives
  for that address and network and whose value is the value of the coin; it has no
  internal key.
\<close>

theorem toInput_standard:
  assumes "tweak c = Undefined"
    and "toOutputScript (address c) network = Inr s"
  shows "toInput Buffer_from_object xOnlyPointAddTweak toOutputScript c network spendPubBuffer =
           Inr \<lparr>hash = txid c, index = vout c,
                witnessUtxo = \<lparr>script = s, value = Coin.value c\<rparr>,
                tapInternalKey = None\<rparr>"
  using assms by (simp add: toInput_def)

theorem toInput_standard_witness:
  "toInput sample_Buffer_from_object sample_xOnlyPointAddTweak sample_toOutputScript
      sample_coin testnet (0x02 # G_x) =
     Inr \<lparr>hash = Str (replicate 64 0x61), index = Num (Finite 0),
          witnessUtxo = \<lparr>script = p2wpkh_script, value = Num (Finite 100000)\<rparr>,
          tapInternalKey = None\<rparr>"
proof -
  have tw: "tweak sample_coin = Undefined" by (simp add: sample_coin_def)
  have ad: "sample_toOutputScript (address sample_coin) testnet = Inr p2wpkh_script"
    by (simp add: sample_coin_def sample_decodes_testnet)
  from toInput_standard [where toOutputScript = sample_toOutputScript and c = sample_coin
      and network = testnet and s = p2wpkh_script
      and Buffer_from_object = sample_Buffer_from_object
      and xOnlyPointAddTweak = sample_xOnlyPointAddTweak and spendPubBuffer = "0x02 # G_x",
      OF tw ad]
  show ?thesis by (simp add: sample_coin_def)
qed


subsection \<open>A tweak that cannot be added\<close>

text \<open>
  Claim C4, as amended. For every coin whose tweak is a string that is not empty, if the
  addition of the x-only spend key and the tweak fails, \<open>toInput\<close> fails and returns no
  descriptor: with the error that the curve library throws (the scalar is out of range),
  or with the \<open>TypeError\<close> of destructuring \<open>null\<close> (the sum is the point at infinity).
\<close>

theorem toInput_tweak_fails:
  assumes "tweak c = Str tw" and "tw \<noteq> []"
    and "\<forall>r. xOnlyPointAddTweak (x_only spendPubBuffer) (hex_decode tw) \<noteq> Inr (Some r)"
  shows "toInput Buffer_from_object xOnlyPointAddTweak toOutputScript c network spendPubBuffer =
           (case xOnlyPointAddTweak (x_only spendPubBuffer) (hex_decode tw) of
              Inl e \<Rightarrow> Inl e
            | Inr _ \<Rightarrow> Inl TypeError)
         \<and> (\<exists>e. toInput Buffer_from_object xOnlyPointAddTweak toOutputScript c network
                   spendPubBuffer = Inl e)"
  using assms
  by (auto simp: toInput_def Buffer_from_hex_def split: sum.splits option.splits)

theorem toInput_tweak_fails_witness:
  "toInput sample_Buffer_from_object sample_xOnlyPointAddTweak sample_toOutputScript
      (sample_coin\<lparr>tweak := Str tweak_order_minus_one\<rparr>) testnet (0x03 # G_x) = Inl TypeError"
proof -
  have add: "sample_xOnlyPointAddTweak (x_only (0x03 # G_x)) (hex_decode tweak_order_minus_one)
      = Inr None"
    by (simp only: x_only_G_x hex_decode_tweak_order_minus_one sample_add_order_minus_one)
  have tw: "tweak (sample_coin\<lparr>tweak := Str tweak_order_minus_one\<rparr>) = Str tweak_order_minus_one"
    by simp
  have no: "\<forall>r. sample_xOnlyPointAddTweak (x_only (0x03 # G_x)) (hex_decode tweak_order_minus_one)
      \<noteq> Inr (Some r)"
    by (simp add: add)
  from toInput_tweak_fails [where xOnlyPointAddTweak = sample_xOnlyPointAddTweak
      and Buffer_from_object = sample_Buffer_from_object
      and toOutputScript = sample_toOutputScript and network = testnet,
      OF tw tweak_order_minus_one_not_Nil no]
  show ?thesis by (simp add: add)
qed

text \<open>The claim as it was stated fails for a tweak that is present and empty: the
  addition of the empty scalar fails, and \<open>toInput\<close> returns the descriptor of the
  standard path.\<close>

theorem toInput_empty_tweak_counterexample:
  "tweak (sample_coin\<lparr>tweak := Str []\<rparr>) = Str [] \<and>
   sample_xOnlyPointAddTweak (x_only G_x) (hex_decode []) = Inl (Error ''Expected Tweak'') \<and>
   toInput sample_Buffer_from_object sample_xOnlyPointAddTweak sample_toOutputScript
      (sample_coin\<lparr>tweak := Str []\<rparr>) testnet G_x =
     Inr \<lparr>hash = Str (replicate 64 0x61), index = Num (Finite 0),
          witnessUtxo = \<lparr>script = p2wpkh_script, value = Num (Finite 100000)\<rparr>,
          tapInternalKey = None\<rparr>"
  by (simp add: x_only_G_x sample_add_empty toInput_def sample_coin_def sample_decodes_testnet)

subsection \<open>The parity byte\<close>

text \<open>
  Claim C7. For every coin, network and pair of 33-byte spend keys that differ in their
  first byte only, \<open>0x02\<close> in one and \<open>0x03\<close> in the other, \<open>toInput\<close> gives the same result
  for both keys.
\<close>

theorem toInput_parity_independent:
  assumes "length x = 32"
  shows "toInput Buffer_from_object xOnlyPointAddTweak toOutputScript c network (0x02 # x) =
         toInput Buffer_from_object xOnlyPointAddTweak toOutputScript c network (0x03 # x)"
  using assms by (simp add: toInput_def x_only_parity)

theorem toInput_parity_independent_witness:
  "length G_x = 32 \<and>
   toInput sample_Buffer_from_object sample_xOnlyPointAddTweak sample_toOutputScript
      (sample_coin\<lparr>tweak := Str tweak_one\<rparr>) testnet (0x02 # G_x) =
   toInput sample_Buffer_from_object sample_xOnlyPointAddTweak sample_toOutputScript
      (sample_coin\<lparr>tweak := Str tweak_one\<rparr>) testnet (0x03 # G_x)"
  using toInput_parity_independent [OF length_G_x, of sample_Buffer_from_object
      sample_xOnlyPointAddTweak sample_toOutputScript "sample_coin\<lparr>tweak := Str tweak_one\<rparr>" testnet]
  by (simp add: length_G_x)

subsection \<open>A key that is no point\<close>




subsection \<open>The address and the network on the taproot path\<close>

text \<open>
  Claim C10, as amended. For every coin whose tweak is a string that is not empty, the
  result of \<open>toInput\<close> does not depend on the address of the coin nor on the network: with
  another address and another network it is the same.
\<close>

theorem toInput_ignores_address:
  assumes "tweak c = Str tw" and "tw \<noteq> []"
  shows "toInput Buffer_from_object xOnlyPointAddTweak toOutputScript (c\<lparr>address := a\<rparr>)
           network' spendPubBuffer =
         toInput Buffer_from_object xOnlyPointAddTweak toOutputScript c network spendPubBuffer"
  using assms by (simp add: toInput_def Let_def split: sum.splits option.splits)

theorem toInput_ignores_address_witness:
  "toInput sample_Buffer_from_object sample_xOnlyPointAddTweak sample_toOutputScript
      (sample_coin\<lparr>tweak := Str tweak_one, address := Str []\<rparr>) bitcoin (0x02 # G_x) =
   toInput sample_Buffer_from_object sample_xOnlyPointAddTweak sample_toOutputScript
      (sample_coin\<lparr>tweak := Str tweak_one\<rparr>) testnet (0x02 # G_x)"
proof -
  have tw: "tweak (sample_coin\<lparr>tweak := Str tweak_one\<rparr>) = Str tweak_one" by simp
  show ?thesis by (rule toInput_ignores_address [OF tw tweak_one_not_Nil])
qed

text \<open>The claim as it was stated fails for a tweak that is present and empty: the result
  then depends on the network, and on the address.\<close>

theorem toInput_empty_tweak_address_counterexample:
  "tweak (sample_coin\<lparr>tweak := Str []\<rparr>) = Str [] \<and>
   toInput sample_Buffer_from_object sample_xOnlyPointAddTweak sample_toOutputScript
      (sample_coin\<lparr>tweak := Str []\<rparr>) testnet G_x =
     Inr \<lparr>hash = Str (replicate 64 0x61), index = Num (Finite 0),
          witnessUtxo = \<lparr>script = p2wpkh_script, value = Num (Finite 100000)\<rparr>,
          tapInternalKey = None\<rparr> \<and>
   toInput sample_Buffer_from_object sample_xOnlyPointAddTweak sample_toOutputScript
      (sample_coin\<lparr>tweak := Str []\<rparr>) bitcoin G_x =
     Inl (Error ''tb1qw508d6qejxtdg4y5r3zarvary0c5xw7kxpjzsx has an invalid prefix'') \<and>
   toInput sample_Buffer_from_object sample_xOnlyPointAddTweak sample_toOutputScript
      (sample_coin\<lparr>tweak := Str [], address := Str []\<rparr>) testnet G_x =
     Inl (Error '' has no matching Script'')"
  by (simp add: toInput_def sample_coin_def sample_decodes_testnet sample_decodes_bitcoin)
    (simp add: sample_toOutputScript_def testnet_address_def js_def)

section \<open>Properties of the fee\<close>

text \<open>
  Claim C6. For every coin and every fee rate, \<open>estimateSpendingFee\<close> returns the product
  of \<open>estimateSpendingSize\<close> and the fee rate, that is of 69 and the fee rate. The product
  is the product of doubles and is returned as it is: where 69 times the fee rate is a
  double, it is that number exactly. (The coin is one on which \<open>estimateSpendingSize\<close>
  is the method of the class: no own property of that name hides it and the prototype
  was not replaced.)
\<close>

theorem estimateSpendingFee_linear:
  assumes "has_method c (js ''estimateSpendingSize'')"
  shows "estimateSpendingFee c feeRate =
           Inr (number_times (Finite (of_int (estimateSpendingSize c))) feeRate)
         \<and> estimateSpendingFee c feeRate = Inr (number_times (Finite 69) feeRate)
         \<and> (\<forall>x. Number_value (69 * x) = Finite (69 * x) \<longrightarrow>
               estimateSpendingFee c (Finite x) = Inr (Finite (69 * x)))"
proof -
  have "estimateSpendingSize c = 69"
    by (simp add: estimateSpendingSize_def WITNESS_SCALE_FACTOR_def bitor_zero_def trunc_def
        ceiling_109_over_4)
  with assms show ?thesis by (simp add: estimateSpendingFee_def)
qed

theorem estimateSpendingFee_linear_witness:
  "has_method sample_coin (js ''estimateSpendingSize'') \<and>
   estimateSpendingFee sample_coin (Finite 5) = Inr (Finite 345)"
proof -
  have own: "has_method sample_coin (js ''estimateSpendingSize'')"
    by (simp add: has_method_def has_own_property_def sample_coin_def)
  have "Number_value (of_int 345) = Finite (of_int 345)"
    by (rule Number_value_safe_integer) simp
  then have rep: "Number_value (69 * 5) = Finite (69 * 5)" by simp
  from estimateSpendingFee_linear [OF own, of "Finite 5"]
  have "estimateSpendingFee sample_coin (Finite 5) = Inr (number_times (Finite 69) (Finite 5))"
    by blast
  with rep own show ?thesis by simp
qed

text \<open>On a coin read from a text with a key \<open>estimateSpendingSize\<close>, or with a key
  \<open>__proto__\<close> and an object or \<open>null\<close> under it, the call fails.\<close>

lemma estimateSpendingFee_hidden_method:
  "estimateSpendingFee (sample_coin\<lparr>others := [(js ''estimateSpendingSize'', Num (Finite 1))]\<rparr>)
     feeRate = Inl TypeError"
  by (simp add: estimateSpendingFee_def has_method_def has_own_property_def)

lemma estimateSpendingFee_replaced_prototype:
  "estimateSpendingFee (sample_coin\<lparr>proto := Some Null\<rparr>) feeRate = Inl TypeError"
  by (simp add: estimateSpendingFee_def has_method_def)

end
